theory Spec2Isabelle
  imports Main "HOL-Library.Word"
begin

unbundle bit_operations_syntax

section \<open>Host-language values\<close>

text \<open>
  The library is TypeScript. A \<open>bigint\<close> is an \<open>int\<close> (both are unbounded
  two's-complement integers under \<open>AND\<close>, \<open>OR\<close>, \<open>push_bit\<close> and \<open>drop_bit\<close>), and a
  string is a list of code units below 256.

  Every \<open>throw new Error(msg)\<close> of the source is the value \<open>Error msg\<close>; the
  \<open>SyntaxError\<close> is the one the built-in \<open>BigInt(string)\<close> conversion throws, the
  \<open>RangeError\<close> the one of \<open>BigInt(number)\<close> on a number that is no integer.
\<close>

datatype error = Error string | SyntaxError | RangeError

subsection \<open>Numbers\<close>

text \<open>
  A \<open>number\<close> is an IEEE double. The model has the doubles that are integers, as
  \<open>Num i\<close>, and \<open>NaN\<close>; fractions and the infinities are not in it. Sums and differences
  of such numbers are integers again, rounded to the nearest double, that is to 53
  significant bits with ties to the even mantissa; everything of magnitude up to 2^53
  is exact. (The overflow to infinity near 2^1024 is not in the model.)
\<close>

datatype number = Num int | NaN

fun dropped_bits :: "nat \<Rightarrow> nat" where
  "dropped_bits n = (if n < 2 ^ 53 then 0 else Suc (dropped_bits (n div 2)))"

declare dropped_bits.simps [simp del]

definition round_nat :: "nat \<Rightarrow> nat" where
  "round_nat n =
     (let e = dropped_bits n; q = n div 2 ^ e; r = n mod 2 ^ e in
      if 2 * r < 2 ^ e \<or> (2 * r = 2 ^ e \<and> even q) then q * 2 ^ e else (q + 1) * 2 ^ e)"

definition round_to_double :: "int \<Rightarrow> int" where
  "round_to_double i =
     (if i < 0 then - int (round_nat (nat (- i))) else int (round_nat (nat i)))"

text \<open>\<open>a < b\<close>, \<open>a - b\<close> on numbers, \<open>BigInt(a)\<close> and \<open>Number(i)\<close> of a BigInt.\<close>

definition Number_less :: "number \<Rightarrow> number \<Rightarrow> bool" where
  "Number_less a b = (case (a, b) of (Num x, Num y) \<Rightarrow> x < y | _ \<Rightarrow> False)"

definition Number_minus :: "number \<Rightarrow> number \<Rightarrow> number" where
  "Number_minus a b =
     (case (a, b) of (Num x, Num y) \<Rightarrow> Num (round_to_double (x - y)) | _ \<Rightarrow> NaN)"

definition BigInt_of_number :: "number \<Rightarrow> error + int" where
  "BigInt_of_number a = (case a of Num x \<Rightarrow> Inr x | NaN \<Rightarrow> Inl RangeError)"

definition Number_of_BigInt :: "int \<Rightarrow> int" where
  "Number_of_BigInt i = round_to_double i"

subsection \<open>Decimal text of an integer: \<open>toString\<close>\<close>

definition digit_char :: "nat \<Rightarrow> char" where
  "digit_char d = ''0123456789'' ! d"

fun decimal_digits :: "nat \<Rightarrow> string" where
  "decimal_digits n =
     (if n < 10 then [digit_char n]
      else decimal_digits (n div 10) @ [digit_char (n mod 10)])"

declare decimal_digits.simps [simp del]

text \<open>\<open>BigInt.prototype.toString()\<close> (radix 10), also the text of an integral \<open>number\<close>
  inside a template string.\<close>

definition BigInt_toString :: "int \<Rightarrow> string" where
  "BigInt_toString i =
     (if i < 0 then CHR ''-'' # decimal_digits (nat (- i)) else decimal_digits (nat i))"

subsection \<open>Text to integer: \<open>BigInt(string)\<close>\<close>

text \<open>
  The conversion \<open>StringToBigInt\<close> of the language: white space is trimmed at both ends;
  the empty rest is \<open>0n\<close>; otherwise the rest must be an optionally signed run of decimal
  digits, or an unsigned \<open>0x\<close>, \<open>0o\<close> or \<open>0b\<close> literal; anything else is no BigInt and
  \<open>BigInt(...)\<close> throws a \<open>SyntaxError\<close>. White space is TAB, LF, VT, FF, CR, SP and
  NBSP (the white-space code units below 256).
\<close>

definition is_StrWhiteSpaceChar :: "char \<Rightarrow> bool" where
  "is_StrWhiteSpaceChar c \<longleftrightarrow> (of_char c :: nat) \<in> {9, 10, 11, 12, 13, 32, 160}"

definition trim :: "string \<Rightarrow> string" where
  "trim s = rev (dropWhile is_StrWhiteSpaceChar (rev (dropWhile is_StrWhiteSpaceChar s)))"

definition digit_value :: "char \<Rightarrow> nat option" where
  "digit_value c =
     (let n = (of_char c :: nat) in
      if 48 \<le> n \<and> n \<le> 57 then Some (n - 48)
      else if 97 \<le> n \<and> n \<le> 122 then Some (n - 87)
      else if 65 \<le> n \<and> n \<le> 90 then Some (n - 55)
      else None)"

fun digits_value :: "nat \<Rightarrow> string \<Rightarrow> nat \<Rightarrow> nat option" where
  "digits_value radix [] acc = Some acc"
| "digits_value radix (c # cs) acc =
     (case digit_value c of
        None \<Rightarrow> None
      | Some d \<Rightarrow> if d < radix then digits_value radix cs (acc * radix + d) else None)"

definition parse_digits :: "nat \<Rightarrow> string \<Rightarrow> nat option" where
  "parse_digits radix s = (if s = [] then None else digits_value radix s 0)"

definition SignedInteger :: "string \<Rightarrow> int option" where
  "SignedInteger s =
     (case s of
        [] \<Rightarrow> None
      | c # ds \<Rightarrow>
          if c = CHR ''+'' then map_option int (parse_digits 10 ds)
          else if c = CHR ''-'' then map_option (\<lambda>n. - int n) (parse_digits 10 ds)
          else map_option int (parse_digits 10 s))"

definition NonDecimalIntegerLiteral :: "string \<Rightarrow> int option option" where
  "NonDecimalIntegerLiteral s =
     (case s of
        c0 # c1 # ds \<Rightarrow>
          if c0 = CHR ''0'' \<and> (c1 = CHR ''x'' \<or> c1 = CHR ''X'')
            then Some (map_option int (parse_digits 16 ds))
          else if c0 = CHR ''0'' \<and> (c1 = CHR ''o'' \<or> c1 = CHR ''O'')
            then Some (map_option int (parse_digits 8 ds))
          else if c0 = CHR ''0'' \<and> (c1 = CHR ''b'' \<or> c1 = CHR ''B'')
            then Some (map_option int (parse_digits 2 ds))
          else None
      | _ \<Rightarrow> None)"

definition StringToBigInt :: "string \<Rightarrow> int option" where
  "StringToBigInt str =
     (let s = trim str in
      if s = [] then Some 0
      else case NonDecimalIntegerLiteral s of
             Some r \<Rightarrow> r
           | None \<Rightarrow> SignedInteger s)"

definition BigInt :: "string \<Rightarrow> error + int" where
  "BigInt str = (case StringToBigInt str of None \<Rightarrow> Inl SyntaxError | Some n \<Rightarrow> Inr n)"

subsection \<open>Text to number: \<open>Number.parseInt(value, 10)\<close>\<close>

text \<open>
  Leading white space is skipped, one sign is read, then the longest run of decimal
  digits; no digit at all is \<open>NaN\<close> (\<open>None\<close>). What follows the digits is ignored. The
  value is the double nearest to the integer read.
\<close>

definition is_digit :: "char \<Rightarrow> bool" where
  "is_digit c \<longleftrightarrow> 48 \<le> (of_char c :: nat) \<and> (of_char c :: nat) \<le> 57"

definition parseInt10 :: "string \<Rightarrow> int option" where
  "parseInt10 str =
     (let S = dropWhile is_StrWhiteSpaceChar str;
          negative = (S \<noteq> [] \<and> hd S = CHR ''-'');
          S1 = (if S \<noteq> [] \<and> (hd S = CHR ''+'' \<or> hd S = CHR ''-'') then tl S else S);
          Z = takeWhile is_digit S1
      in if Z = [] then None
         else map_option (\<lambda>n. round_to_double (if negative then - int n else int n))
                (digits_value 10 Z 0))"

text \<open>\<open>new Date(t)\<close>: the time value \<open>t\<close>, or an invalid date (\<open>None\<close>) beyond the
  range of 8.64e15 milliseconds around 1970.\<close>

definition Date_new :: "int \<Rightarrow> int option" where
  "Date_new t = (if \<bar>t\<bar> \<le> 8640000000000000 then Some t else None)"

section \<open>src/index.ts\<close>

subsection \<open>Constants\<close>

definition DEFAULT_EPOCH :: int where "DEFAULT_EPOCH = 1577836800000"

definition TIMESTAMP_BITS :: nat where "TIMESTAMP_BITS = 41"
definition DATACENTER_BITS :: nat where "DATACENTER_BITS = 5"
definition WORKER_BITS :: nat where "WORKER_BITS = 5"
definition SEQUENCE_BITS :: nat where "SEQUENCE_BITS = 12"

definition MAX_DATACENTER_ID :: int where "MAX_DATACENTER_ID = push_bit DATACENTER_BITS 1 - 1"
definition MAX_WORKER_ID :: int where "MAX_WORKER_ID = push_bit WORKER_BITS 1 - 1"
definition MAX_SEQUENCE :: int where "MAX_SEQUENCE = push_bit SEQUENCE_BITS 1 - 1"

definition SEQUENCE_SHIFT :: nat where "SEQUENCE_SHIFT = 0"
definition WORKER_SHIFT :: nat where "WORKER_SHIFT = SEQUENCE_BITS"
definition DATACENTER_SHIFT :: nat where "DATACENTER_SHIFT = SEQUENCE_BITS + WORKER_BITS"
definition TIMESTAMP_SHIFT :: nat where
  "TIMESTAMP_SHIFT = SEQUENCE_BITS + WORKER_BITS + DATACENTER_BITS"

subsection \<open>Packing and unpacking\<close>

text \<open>The expression of lines 85 to 89 of \<open>createSnowflake\<close>, on BigInt values.\<close>

definition encode :: "int \<Rightarrow> int \<Rightarrow> int \<Rightarrow> int \<Rightarrow> int" where
  "encode timestampOffset datacenterId workerId sequence =
     push_bit TIMESTAMP_SHIFT timestampOffset
       OR push_bit DATACENTER_SHIFT datacenterId
       OR push_bit WORKER_SHIFT workerId
       OR sequence"

record components =
  timestamp :: int
  datacenterId :: int
  workerId :: int
  sequence :: int
  date :: "int option"

text \<open>
  An omitted \<open>epoch\<close> argument (\<open>None\<close>) takes the default of the parameter; an epoch
  that is given is an integer. The timestamp is \<open>Number(idBigInt >> 22n) + epoch\<close>, a
  conversion and a sum of doubles.
\<close>

definition epoch_arg :: "int option \<Rightarrow> int" where
  "epoch_arg e = (case e of None \<Rightarrow> DEFAULT_EPOCH | Some v \<Rightarrow> v)"

definition parseSnowflakeId :: "string \<Rightarrow> int option \<Rightarrow> error + components" where
  "parseSnowflakeId ident epoch =
     (case BigInt ident of
        Inl e \<Rightarrow> Inl e
      | Inr idBigInt \<Rightarrow>
          let t = round_to_double
                    (Number_of_BigInt (drop_bit TIMESTAMP_SHIFT idBigInt) + epoch_arg epoch)
          in
          Inr \<lparr> timestamp = t,
                datacenterId = drop_bit DATACENTER_SHIFT idBigInt AND MAX_DATACENTER_ID,
                workerId = drop_bit WORKER_SHIFT idBigInt AND MAX_WORKER_ID,
                sequence = idBigInt AND MAX_SEQUENCE,
                date = Date_new t \<rparr>)"

definition getSnowflakeTimestamp :: "string \<Rightarrow> int option \<Rightarrow> error + int" where
  "getSnowflakeTimestamp ident epoch =
     (case BigInt ident of
        Inl e \<Rightarrow> Inl e
      | Inr idBigInt \<Rightarrow>
          Inr (round_to_double
                 (Number_of_BigInt (drop_bit TIMESTAMP_SHIFT idBigInt) + epoch_arg epoch)))"

definition snowflakeToDate :: "string \<Rightarrow> int option \<Rightarrow> error + int option" where
  "snowflakeToDate ident epoch =
     (case getSnowflakeTimestamp ident epoch of
        Inl e \<Rightarrow> Inl e
      | Inr t \<Rightarrow> Inr (Date_new t))"

subsection \<open>Configuration objects\<close>

text \<open>
  A \<open>SnowflakeConfig\<close> object has optional properties of type \<open>number\<close>. An object is
  a map from property names to values; a property may be present and hold \<open>undefined\<close>,
  which an object spread copies like any other value and which a destructuring default
  replaces like an absent property. A property that holds \<open>NaN\<close> is a value like any
  other.
\<close>

datatype property = Undefined | Value number

type_synonym SnowflakeConfig = "string \<rightharpoonup> property"

text \<open>\<open>const { name = dflt } = config\<close>\<close>

definition destructure :: "SnowflakeConfig \<Rightarrow> string \<Rightarrow> number \<Rightarrow> number" where
  "destructure config name dflt = (case config name of Some (Value v) \<Rightarrow> v | _ \<Rightarrow> dflt)"

text \<open>\<open>{ ...a, ...b }\<close>\<close>

definition spread :: "SnowflakeConfig \<Rightarrow> SnowflakeConfig \<Rightarrow> SnowflakeConfig" where
  "spread a b = a ++ b"

subsection \<open>The generator\<close>

text \<open>
  The closure that \<open>createSnowflake\<close> returns: the three constants it captures and its
  two mutable variables.
\<close>

record generator =
  epoch :: number
  datacenterId :: number
  workerId :: number
  lastTimestamp :: int
  sequence :: int

definition createSnowflake :: "SnowflakeConfig \<Rightarrow> error + generator" where
  "createSnowflake config =
     (let e = destructure config ''epoch'' (Num DEFAULT_EPOCH);
          d = destructure config ''datacenterId'' (Num 0);
          w = destructure config ''workerId'' (Num 0)
      in
      if Number_less d (Num 0) \<or> Number_less (Num MAX_DATACENTER_ID) d then
        Inl (Error (''Datacenter ID must be between 0 and '' @ BigInt_toString MAX_DATACENTER_ID))
      else if Number_less w (Num 0) \<or> Number_less (Num MAX_WORKER_ID) w then
        Inl (Error (''Worker ID must be between 0 and '' @ BigInt_toString MAX_WORKER_ID))
      else
        Inr \<lparr> epoch = e, datacenterId = d, workerId = w, lastTimestamp = - 1, sequence = 0 \<rparr>)"

text \<open>
  The clock: \<open>Date_now k\<close> is what the \<open>k\<close>-th call of \<open>Date.now()\<close> returns (counting
  from 0), a whole number of milliseconds, and the number of calls made so far is
  threaded next to the generator.

  The loop \<open>while (timestamp <= lastTimestamp) timestamp = Date.now()\<close> may never end;
  \<open>None\<close> is the loop that never returns.
\<close>

type_synonym clock = "nat \<Rightarrow> int"

partial_function (option) spin_wait :: "clock \<Rightarrow> int \<Rightarrow> int \<Rightarrow> nat \<Rightarrow> (int \<times> nat) option" where
  "spin_wait Date_now lastTs ts k =
     (if ts \<le> lastTs then spin_wait Date_now lastTs (Date_now k) (Suc k) else Some (ts, k))"

text \<open>
  Lines 59 to 79 of the generator: read the clock, refuse a clock that went back, choose
  the sequence number, wait for the next millisecond when the sequence is used up, and
  store the tick. The result is the error thrown or the final value of the local
  \<open>timestamp\<close>, with the generator and the clock position afterwards.
\<close>

definition next_tick ::
  "clock \<Rightarrow> generator \<times> nat \<Rightarrow> ((error + int) \<times> generator \<times> nat) option" where
  "next_tick Date_now gk =
     (case gk of (g, k) \<Rightarrow>
        let ts = Date_now k in
        if ts < lastTimestamp g then
          Some (Inl (Error ''Clock moved backwards. Refusing to generate id''), g, Suc k)
        else if ts = lastTimestamp g then
          let g1 = g \<lparr> sequence := (sequence g + 1) AND MAX_SEQUENCE \<rparr> in
          if sequence g1 = 0 then
            (case spin_wait Date_now (lastTimestamp g1) ts (Suc k) of
               None \<Rightarrow> None
             | Some (ts', k') \<Rightarrow> Some (Inr ts', g1 \<lparr> lastTimestamp := ts' \<rparr>, k'))
          else Some (Inr ts, g1 \<lparr> lastTimestamp := ts \<rparr>, Suc k)
        else
          Some (Inr ts, g \<lparr> sequence := 0, lastTimestamp := ts \<rparr>, Suc k))"

text \<open>
  The value of the local \<open>timestampOffset\<close> (line 82) in a call that reaches it: a
  difference of doubles.
\<close>

definition timestampOffset :: "clock \<Rightarrow> generator \<times> nat \<Rightarrow> number option" where
  "timestampOffset Date_now gk =
     (case next_tick Date_now gk of
        Some (Inr ts, g', k') \<Rightarrow> Some (Number_minus (Num ts) (epoch g'))
      | _ \<Rightarrow> None)"

text \<open>
  One call of the generator function. The four \<open>BigInt(...)\<close> conversions of lines 86 to
  89 run from left to right, after the state has been updated; the one of \<open>sequence\<close>
  cannot throw.
\<close>

definition generate ::
  "clock \<Rightarrow> generator \<times> nat \<Rightarrow> ((error + string) \<times> generator \<times> nat) option" where
  "generate Date_now gk =
     (case next_tick Date_now gk of
        None \<Rightarrow> None
      | Some (Inl e, g', k') \<Rightarrow> Some (Inl e, g', k')
      | Some (Inr ts, g', k') \<Rightarrow>
          (case BigInt_of_number (Number_minus (Num ts) (epoch g')) of
             Inl err \<Rightarrow> Some (Inl err, g', k')
           | Inr offset \<Rightarrow>
               (case BigInt_of_number (datacenterId g') of
                  Inl err \<Rightarrow> Some (Inl err, g', k')
                | Inr d \<Rightarrow>
                    (case BigInt_of_number (workerId g') of
                       Inl err \<Rightarrow> Some (Inl err, g', k')
                     | Inr w \<Rightarrow>
                         Some (Inr (BigInt_toString (encode offset d w (sequence g'))),
                               g', k')))))"

text \<open>
  \<open>n\<close> calls in a row on one generator, as the loops of the test suite make them: the
  identifiers in emission order, or the first error.
\<close>

fun generate_n ::
  "clock \<Rightarrow> nat \<Rightarrow> generator \<times> nat \<Rightarrow> ((error + string list) \<times> generator \<times> nat) option" where
  "generate_n Date_now 0 gk = Some (Inr [], gk)"
| "generate_n Date_now (Suc n) gk =
     (case generate Date_now gk of
        None \<Rightarrow> None
      | Some (Inl e, gk') \<Rightarrow> Some (Inl e, gk')
      | Some (Inr ident, gk') \<Rightarrow>
          (case generate_n Date_now n gk' of
             None \<Rightarrow> None
           | Some (Inl e, gk'') \<Rightarrow> Some (Inl e, gk'')
           | Some (Inr ids, gk'') \<Rightarrow> Some (Inr (ident # ids), gk'')))"

definition generateSnowflakeId ::
  "clock \<Rightarrow> SnowflakeConfig \<Rightarrow> nat \<Rightarrow> ((error + string) \<times> nat) option" where
  "generateSnowflakeId Date_now config k =
     (case createSnowflake config of
        Inl e \<Rightarrow> Some (Inl e, k)
      | Inr g \<Rightarrow>
          (case generate Date_now (g, k) of
             None \<Rightarrow> None
           | Some (r, g', k') \<Rightarrow> Some (r, k')))"

section \<open>src/browser.ts\<close>

text \<open>
  \<open>localStorage\<close> is a map from keys to strings, or absent altogether (\<open>None\<close>, the case
  \<open>typeof localStorage === "undefined"\<close>); \<open>getItem\<close> of a missing key is \<open>null\<close>
  (\<open>None\<close>). The warnings written to the console are not part of the model.
\<close>

type_synonym storage = "string \<rightharpoonup> string"

definition EPOCH_KEY :: string where "EPOCH_KEY = ''snowflake.epoch''"
definition DATACENTER_ID_KEY :: string where "DATACENTER_ID_KEY = ''snowflake.datacenterId''"
definition WORKER_ID_KEY :: string where "WORKER_ID_KEY = ''snowflake.workerId''"

definition parseLocalStorageInt :: "storage option \<Rightarrow> string \<Rightarrow> int \<Rightarrow> int \<Rightarrow> property" where
  "parseLocalStorageInt localStorage key lo hi =
     (case localStorage of
        None \<Rightarrow> Undefined
      | Some items \<Rightarrow>
          (case items key of
             None \<Rightarrow> Undefined
           | Some v \<Rightarrow>
               if v = [] then Undefined
               else (case parseInt10 v of
                       None \<Rightarrow> Undefined
                     | Some parsed \<Rightarrow>
                         if parsed < lo \<or> parsed > hi then Undefined
                         else Value (Num parsed))))"

text \<open>
  The two assignments \<open>config.datacenterId = parseLocalStorageInt(...)\<close> and
  \<open>config.workerId = parseLocalStorageInt(...)\<close> are unconditional: they create the
  properties also when the value is \<open>undefined\<close>.
\<close>

definition loadConfigFromStorage :: "storage option \<Rightarrow> SnowflakeConfig" where
  "loadConfigFromStorage localStorage =
     (case localStorage of
        None \<Rightarrow> Map.empty
      | Some items \<Rightarrow>
          let c0 = Map.empty;
              c1 = (case items EPOCH_KEY of
                      None \<Rightarrow> c0
                    | Some epochStr \<Rightarrow>
                        if epochStr = [] then c0
                        else (case parseInt10 epochStr of
                                None \<Rightarrow> c0
                              | Some e \<Rightarrow> c0(''epoch'' \<mapsto> Value (Num e))));
              c2 = c1(''datacenterId'' \<mapsto> parseLocalStorageInt localStorage DATACENTER_ID_KEY 0 31);
              c3 = c2(''workerId'' \<mapsto> parseLocalStorageInt localStorage WORKER_ID_KEY 0 31)
          in c3)"

text \<open>
  The two fingerprint functions read the browser (time zone, user agent, screen) or draw
  a random number; their results, each in 0 to 31, are parameters here.
\<close>

definition generateBrowserConfig :: "int \<Rightarrow> int \<Rightarrow> SnowflakeConfig" where
  "generateBrowserConfig browserDatacenterId browserWorkerId =
     [''datacenterId'' \<mapsto> Value (Num browserDatacenterId),
      ''workerId'' \<mapsto> Value (Num browserWorkerId)]"

definition createSnowflakeFromStorage ::
  "storage option \<Rightarrow> int \<Rightarrow> int \<Rightarrow> SnowflakeConfig \<Rightarrow> error + generator" where
  "createSnowflakeFromStorage localStorage browserDatacenterId browserWorkerId overrides =
     (let storageConfig = loadConfigFromStorage localStorage;
          browserConfig = generateBrowserConfig browserDatacenterId browserWorkerId;
          finalConfig = spread (spread browserConfig storageConfig) overrides
      in createSnowflake finalConfig)"

section \<open>src/node.ts\<close>

text \<open>\<open>process.env\<close> is a map from names to strings; an unset variable is \<open>None\<close>.\<close>

definition ENV_EPOCH :: string where "ENV_EPOCH = ''SNOWFLAKE_EPOCH''"
definition ENV_DATACENTER_ID :: string where "ENV_DATACENTER_ID = ''SNOWFLAKE_DATACENTER_ID''"
definition ENV_WORKER_ID :: string where "ENV_WORKER_ID = ''SNOWFLAKE_WORKER_ID''"

definition parseEnvInt :: "string option \<Rightarrow> int \<Rightarrow> int \<Rightarrow> string \<Rightarrow> error + property" where
  "parseEnvInt v lo hi name =
     (case v of
        None \<Rightarrow> Inr Undefined
      | Some str \<Rightarrow>
          if str = [] then Inr Undefined
          else (case parseInt10 str of
                  None \<Rightarrow>
                    Inl (Error (''Environment variable '' @ name @ '' must be a valid integer''))
                | Some parsed \<Rightarrow>
                    if parsed < lo \<or> parsed > hi then
                      Inl (Error (''Environment variable '' @ name @ '' must be between ''
                                  @ BigInt_toString lo @ '' and '' @ BigInt_toString hi))
                    else Inr (Value (Num parsed))))"

definition loadConfigFromEnv :: "storage \<Rightarrow> error + SnowflakeConfig" where
  "loadConfigFromEnv env =
     (case (case env ENV_EPOCH of
              None \<Rightarrow> Inr Map.empty
            | Some epochStr \<Rightarrow>
                if epochStr = [] then Inr Map.empty
                else (case parseInt10 epochStr of
                        None \<Rightarrow>
                          Inl (Error (''Environment variable '' @ ENV_EPOCH
                                      @ '' must be a valid integer timestamp''))
                      | Some e \<Rightarrow> Inr [''epoch'' \<mapsto> Value (Num e)])) of
        Inl err \<Rightarrow> Inl err
      | Inr c1 \<Rightarrow>
          (case parseEnvInt (env ENV_DATACENTER_ID) 0 31 ENV_DATACENTER_ID of
             Inl err \<Rightarrow> Inl err
           | Inr d \<Rightarrow>
               (case parseEnvInt (env ENV_WORKER_ID) 0 31 ENV_WORKER_ID of
                  Inl err \<Rightarrow> Inl err
                | Inr w \<Rightarrow> Inr (c1(''datacenterId'' \<mapsto> d, ''workerId'' \<mapsto> w)))))"

definition createSnowflakeFromEnv :: "storage \<Rightarrow> SnowflakeConfig \<Rightarrow> error + generator" where
  "createSnowflakeFromEnv env overrides =
     (case loadConfigFromEnv env of
        Inl err \<Rightarrow> Inl err
      | Inr envConfig \<Rightarrow> createSnowflake (spread envConfig overrides))"

section \<open>Fixtures\<close>

text \<open>
  Clocks of the kind the test suite installs: one that advances by a millisecond at each
  reading, and one that returns the same millisecond for the first \<open>n\<close> readings and the
  next millisecond from then on.
\<close>

definition ticking_clock :: "int \<Rightarrow> clock" where
  "ticking_clock t0 k = t0 + int k"

definition stalled_clock :: "int \<Rightarrow> nat \<Rightarrow> clock" where
  "stalled_clock t0 n k = (if k < n then t0 else t0 + 1)"

text \<open>A clock that advances by one millisecond every \<open>m\<close> readings, from 0.\<close>

definition slow_clock :: "nat \<Rightarrow> clock" where
  "slow_clock m k = int (k div m)"

text \<open>\<open>BigInt.asUintN(64, v)\<close>: an integer read as an unsigned 64-bit integer.\<close>

definition asUint64 :: "int \<Rightarrow> 64 word" where
  "asUint64 v = word_of_int v"

section \<open>Notions used in the statements\<close>

text \<open>The integer that a number holds (0 for \<open>NaN\<close>, where it is not used).\<close>

definition int_of :: "number \<Rightarrow> int" where
  "int_of a = (case a of Num x \<Rightarrow> x | NaN \<Rightarrow> 0)"

text \<open>
  The identifier that stands for the current variables of a generator, with the exact
  difference of tick and epoch.
\<close>

definition current_id :: "generator \<Rightarrow> int" where
  "current_id g =
     encode (lastTimestamp g - int_of (epoch g)) (int_of (datacenterId g))
       (int_of (workerId g)) (sequence g)"

text \<open>
  The captured constants are integers, and the ranges that construction and the sequence
  arithmetic keep.
\<close>

definition integral :: "generator \<Rightarrow> bool" where
  "integral g \<longleftrightarrow> epoch g \<noteq> NaN \<and> datacenterId g \<noteq> NaN \<and> workerId g \<noteq> NaN"

definition in_range :: "generator \<Rightarrow> bool" where
  "in_range g \<longleftrightarrow>
     integral g
     \<and> 0 \<le> int_of (datacenterId g) \<and> int_of (datacenterId g) \<le> 31
     \<and> 0 \<le> int_of (workerId g) \<and> int_of (workerId g) \<le> 31
     \<and> 0 \<le> sequence g \<and> sequence g \<le> 4095"

text \<open>
  The shape of an integer literal, stated on the characters alone: a run of decimal
  digits with an optional sign, or \<open>0x\<close>, \<open>0o\<close>, \<open>0b\<close> and a run of digits of that base.
\<close>

definition is_hex_digit :: "char \<Rightarrow> bool" where
  "is_hex_digit c \<longleftrightarrow>
     is_digit c \<or> (97 \<le> (of_char c :: nat) \<and> (of_char c :: nat) \<le> 102)
       \<or> (65 \<le> (of_char c :: nat) \<and> (of_char c :: nat) \<le> 70)"

definition is_octal_digit :: "char \<Rightarrow> bool" where
  "is_octal_digit c \<longleftrightarrow> 48 \<le> (of_char c :: nat) \<and> (of_char c :: nat) \<le> 55"

definition is_binary_digit :: "char \<Rightarrow> bool" where
  "is_binary_digit c \<longleftrightarrow> 48 \<le> (of_char c :: nat) \<and> (of_char c :: nat) \<le> 49"

text \<open>A character that \<open>digit_value\<close> reads as a digit below the radix.\<close>

definition digit_below :: "nat \<Rightarrow> char \<Rightarrow> bool" where
  "digit_below radix c \<longleftrightarrow> (case digit_value c of None \<Rightarrow> False | Some d \<Rightarrow> d < radix)"

definition is_run :: "(char \<Rightarrow> bool) \<Rightarrow> string \<Rightarrow> bool" where
  "is_run p s \<longleftrightarrow> s \<noteq> [] \<and> list_all p s"

definition is_integer_literal :: "string \<Rightarrow> bool" where
  "is_integer_literal s \<longleftrightarrow>
     is_run is_digit s
     \<or> (case s of
           c # ds \<Rightarrow> (c = CHR ''+'' \<or> c = CHR ''-'') \<and> is_run is_digit ds
         | [] \<Rightarrow> False)
     \<or> (case s of
           c0 # c1 # ds \<Rightarrow>
             c0 = CHR ''0''
             \<and> ((c1 = CHR ''x'' \<or> c1 = CHR ''X'') \<and> is_run is_hex_digit ds
                \<or> (c1 = CHR ''o'' \<or> c1 = CHR ''O'') \<and> is_run is_octal_digit ds
                \<or> (c1 = CHR ''b'' \<or> c1 = CHR ''B'') \<and> is_run is_binary_digit ds)
         | _ \<Rightarrow> False)"

section \<open>Rounding to a double\<close>

lemma dropped_bits_small: "n < 2 ^ 53 \<Longrightarrow> dropped_bits n = 0"
  by (subst dropped_bits.simps) simp

lemma round_nat_small: "n < 2 ^ 53 \<Longrightarrow> round_nat n = n"
  by (simp add: round_nat_def dropped_bits_small)

lemma round_nat_2_53: "round_nat (2 ^ 53) = 2 ^ 53"
proof -
  have "dropped_bits (2 ^ 53) = Suc 0"
    by (subst dropped_bits.simps) (simp add: dropped_bits_small)
  then show ?thesis by (simp add: round_nat_def)
qed

lemma round_nat_exact: "n \<le> 2 ^ 53 \<Longrightarrow> round_nat n = n"
  using round_nat_small[of n] round_nat_2_53 by (cases "n = 2 ^ 53") simp_all

lemma round_to_double_exact: "\<bar>i\<bar> \<le> 2 ^ 53 \<Longrightarrow> round_to_double i = i"
proof -
  assume a: "\<bar>i\<bar> \<le> 2 ^ 53"
  show ?thesis
  proof (cases "i < 0")
    case True
    with a have "nat (- i) \<le> 2 ^ 53" by (simp add: nat_le_iff)
    then have "round_nat (nat (- i)) = nat (- i)" by (rule round_nat_exact)
    with True show ?thesis by (simp add: round_to_double_def)
  next
    case False
    with a have "nat i \<le> 2 ^ 53" by (simp add: nat_le_iff)
    then have "round_nat (nat i) = nat i" by (rule round_nat_exact)
    with False show ?thesis by (simp add: round_to_double_def)
  qed
qed

lemma round_to_double_sign:
  "0 \<le> i \<Longrightarrow> 0 \<le> round_to_double i" "i \<le> 0 \<Longrightarrow> round_to_double i \<le> 0"
  by (auto simp add: round_to_double_def round_nat_small)

lemma round_2_53_plus_1: "round_to_double 9007199254740993 = 9007199254740992"
proof -
  have "dropped_bits 9007199254740993 = Suc 0"
    by (subst dropped_bits.simps) (simp add: dropped_bits_small)
  then show ?thesis by (simp add: round_to_double_def round_nat_def)
qed

section \<open>The bit layout\<close>

lemmas layout_defs =
  TIMESTAMP_SHIFT_def DATACENTER_SHIFT_def WORKER_SHIFT_def SEQUENCE_SHIFT_def
  TIMESTAMP_BITS_def DATACENTER_BITS_def WORKER_BITS_def SEQUENCE_BITS_def
  MAX_DATACENTER_ID_def MAX_WORKER_ID_def MAX_SEQUENCE_def

lemma max_values: "MAX_DATACENTER_ID = 31" "MAX_WORKER_ID = 31" "MAX_SEQUENCE = 4095"
  by (simp_all add: layout_defs)

lemma shifts: "TIMESTAMP_SHIFT = 22" "DATACENTER_SHIFT = 17" "WORKER_SHIFT = 12"
  by (simp_all add: layout_defs)

lemma and_31: "(x::int) AND 31 = x mod 32"
  using take_bit_eq_mask[of 5 x] by (simp add: take_bit_eq_mod mask_eq_exp_minus_1)

lemma and_4095: "(x::int) AND 4095 = x mod 4096"
  using take_bit_eq_mask[of 12 x] by (simp add: take_bit_eq_mod mask_eq_exp_minus_1)

lemma or_is_plus:
  fixes a b :: int
  assumes "0 \<le> b" "b < 2 ^ n"
  shows "push_bit n a OR b = a * 2 ^ n + b"
proof -
  have "take_bit n b = b" using assms by (simp add: take_bit_int_eq_self)
  have "push_bit n a AND take_bit n b = 0"
    by (simp add: bit_eq_iff bit_simps)
  then have "push_bit n a + take_bit n b = push_bit n a OR take_bit n b"
    by (rule disjunctive_add_eq_or)
  thus ?thesis using \<open>take_bit n b = b\<close> by (simp add: push_bit_eq_mult)
qed

lemma encode_sum:
  assumes "0 \<le> d" "d \<le> 31" "0 \<le> w" "w \<le> 31" "0 \<le> s" "s \<le> 4095"
  shows "encode t d w s = t * 4194304 + d * 131072 + w * 4096 + s"
proof -
  have "encode t d w s = push_bit 12 (push_bit 5 (push_bit 5 t OR d) OR w) OR s"
    unfolding encode_def shifts by (simp add: bit_eq_iff bit_simps; auto)
  also have "\<dots> = ((t * 32 + d) * 32 + w) * 4096 + s"
    using assms by (simp add: or_is_plus)
  finally show ?thesis by simp
qed


lemma div_mod_digit:
  fixes q r k :: int
  assumes "0 \<le> r" "r < k"
  shows "(q * k + r) div k = q" and "(q * k + r) mod k = r"
  using assms by (simp_all add: div_pos_pos_trivial mod_pos_pos_trivial)

lemma parse_fields:
  assumes "0 \<le> d" "d \<le> 31" "0 \<le> w" "w \<le> 31" "0 \<le> s" "s \<le> 4095"
  shows "drop_bit TIMESTAMP_SHIFT (encode t d w s) = t"
    and "drop_bit DATACENTER_SHIFT (encode t d w s) AND MAX_DATACENTER_ID = d"
    and "drop_bit WORKER_SHIFT (encode t d w s) AND MAX_WORKER_ID = w"
    and "encode t d w s AND MAX_SEQUENCE = s"
proof -
  let ?x = "encode t d w s"
  have x: "?x = t * 4194304 + d * 131072 + w * 4096 + s"
    by (rule encode_sum[OF assms])
  have a: "?x = t * 4194304 + (d * 131072 + w * 4096 + s)"
    and b: "?x = (t * 32 + d) * 131072 + (w * 4096 + s)"
    and c: "?x = ((t * 32 + d) * 32 + w) * 4096 + s"
    unfolding x by simp_all
  have "?x div 4194304 = t"
    unfolding a using assms by (intro div_mod_digit(1)) simp_all
  then show "drop_bit TIMESTAMP_SHIFT ?x = t"
    by (simp add: shifts drop_bit_eq_div)
  have "?x div 131072 = t * 32 + d"
    unfolding b using assms by (intro div_mod_digit(1)) simp_all
  moreover have "(t * 32 + d) mod 32 = d"
    using assms by (intro div_mod_digit(2)) simp_all
  ultimately show "drop_bit DATACENTER_SHIFT ?x AND MAX_DATACENTER_ID = d"
    by (simp add: shifts max_values and_31 drop_bit_eq_div)
  have "?x div 4096 = (t * 32 + d) * 32 + w"
    unfolding c using assms by (intro div_mod_digit(1)) simp_all
  moreover have "((t * 32 + d) * 32 + w) mod 32 = w"
    using assms by (intro div_mod_digit(2)) simp_all
  ultimately show "drop_bit WORKER_SHIFT ?x AND MAX_WORKER_ID = w"
    by (simp add: shifts max_values and_31 drop_bit_eq_div)
  have "?x mod 4096 = s"
    unfolding c using assms by (intro div_mod_digit(2)) simp_all
  then show "?x AND MAX_SEQUENCE = s"
    by (simp add: max_values and_4095)
qed

section \<open>Decimal text and back\<close>

lemma digit_char_code: "d < 10 \<Longrightarrow> (of_char (digit_char d) :: nat) = 48 + d"
proof -
  assume "d < 10"
  then have "d \<in> {0, 1, 2, 3, 4, 5, 6, 7, 8, 9}" by auto
  then show ?thesis by (auto simp add: digit_char_def)
qed

lemma digit_value_digit_char: "d < 10 \<Longrightarrow> digit_value (digit_char d) = Some d"
  by (simp add: digit_value_def digit_char_code Let_def)

lemma digit_char_not_space: "d < 10 \<Longrightarrow> \<not> is_StrWhiteSpaceChar (digit_char d)"
  by (simp add: is_StrWhiteSpaceChar_def digit_char_code)

lemma is_digit_digit_char: "d < 10 \<Longrightarrow> is_digit (digit_char d)"
  by (simp add: is_digit_def digit_char_code)

lemma decimal_digits_all: "\<forall>c \<in> set (decimal_digits n). is_digit c"
proof (induction n rule: decimal_digits.induct)
  case (1 n)
  show ?case
  proof (cases "n < 10")
    case True
    then show ?thesis by (subst decimal_digits.simps) (simp add: is_digit_digit_char)
  next
    case False
    with 1 show ?thesis by (subst decimal_digits.simps) (simp add: is_digit_digit_char)
  qed
qed

lemma decimal_digits_nonempty: "decimal_digits n \<noteq> []"
  by (subst decimal_digits.simps) simp

lemma digits_value_append:
  "digits_value r (xs @ ys) acc =
     (case digits_value r xs acc of None \<Rightarrow> None | Some a \<Rightarrow> digits_value r ys a)"
  by (induction xs arbitrary: acc) (simp_all split: option.splits)

lemma digits_value_decimal: "digits_value 10 (decimal_digits n) 0 = Some n"
proof (induction n rule: decimal_digits.induct)
  case (1 n)
  show ?case
  proof (cases "n < 10")
    case True
    then show ?thesis
      by (subst decimal_digits.simps) (simp add: digit_value_digit_char)
  next
    case False
    with 1 have "digits_value 10 (decimal_digits (n div 10)) 0 = Some (n div 10)" by simp
    with False show ?thesis
      by (subst decimal_digits.simps) (simp add: digits_value_append digit_value_digit_char)
  qed
qed

lemma parse_digits_decimal: "parse_digits 10 (decimal_digits n) = Some n"
  by (simp add: parse_digits_def decimal_digits_nonempty digits_value_decimal)

lemma is_digit_not_space: "is_digit c \<Longrightarrow> \<not> is_StrWhiteSpaceChar c"
  by (auto simp add: is_digit_def is_StrWhiteSpaceChar_def)

lemma trim_id:
  assumes "s \<noteq> []" "\<not> is_StrWhiteSpaceChar (hd s)" "\<not> is_StrWhiteSpaceChar (last s)"
  shows "trim s = s"
proof -
  from assms have 1: "dropWhile is_StrWhiteSpaceChar s = s"
    by (cases s) simp_all
  from assms have 2: "dropWhile is_StrWhiteSpaceChar (rev s) = rev s"
    by (cases "rev s") (simp_all add: hd_rev)
  show ?thesis by (simp add: trim_def 1 2)
qed

lemma trim_decimal: "trim (decimal_digits n) = decimal_digits n"
  using decimal_digits_all[of n] decimal_digits_nonempty[of n]
  by (intro trim_id) (simp_all add: is_digit_not_space)

lemma trim_minus_decimal: "trim (CHR ''-'' # decimal_digits n) = CHR ''-'' # decimal_digits n"
proof (rule trim_id)
  show "\<not> is_StrWhiteSpaceChar (hd (CHR ''-'' # decimal_digits n))"
    by (simp add: is_StrWhiteSpaceChar_def)
  have "is_digit (last (decimal_digits n))"
    using decimal_digits_all[of n] decimal_digits_nonempty[of n] by simp
  then show "\<not> is_StrWhiteSpaceChar (last (CHR ''-'' # decimal_digits n))"
    by (simp add: decimal_digits_nonempty is_digit_not_space)
qed simp

lemma is_digit_not_letter:
  "is_digit c \<Longrightarrow> c \<notin> {CHR ''x'', CHR ''X'', CHR ''o'', CHR ''O'', CHR ''b'', CHR ''B'', CHR ''+'', CHR ''-''}"
  by (auto simp add: is_digit_def)

lemma NonDecimal_decimal: "NonDecimalIntegerLiteral (decimal_digits n) = None"
proof (cases "decimal_digits n")
  case Nil
  then show ?thesis by (simp add: NonDecimalIntegerLiteral_def)
next
  case (Cons c0 r)
  show ?thesis
  proof (cases r)
    case Nil
    with Cons show ?thesis by (simp add: NonDecimalIntegerLiteral_def)
  next
    case (Cons c1 ds)
    with \<open>decimal_digits n = c0 # r\<close> decimal_digits_all[of n] have "is_digit c1" by simp
    from is_digit_not_letter[OF this] Cons \<open>decimal_digits n = c0 # r\<close>
    show ?thesis by (simp add: NonDecimalIntegerLiteral_def)
  qed
qed

lemma NonDecimal_minus: "NonDecimalIntegerLiteral (CHR ''-'' # s) = None"
  by (simp add: NonDecimalIntegerLiteral_def split: list.splits)

lemma SignedInteger_decimal: "SignedInteger (decimal_digits n) = Some (int n)"
proof (cases "decimal_digits n")
  case Nil
  with decimal_digits_nonempty show ?thesis by simp
next
  case (Cons c ds)
  with decimal_digits_all[of n] have "is_digit c" by simp
  from is_digit_not_letter[OF this] have "c \<noteq> CHR ''+''" "c \<noteq> CHR ''-''" by simp_all
  with Cons parse_digits_decimal[of n] show ?thesis by (simp add: SignedInteger_def)
qed

lemma SignedInteger_minus: "SignedInteger (CHR ''-'' # decimal_digits n) = Some (- int n)"
  by (simp add: SignedInteger_def parse_digits_decimal)

lemma StringToBigInt_toString: "StringToBigInt (BigInt_toString i) = Some i"
  by (simp add: StringToBigInt_def BigInt_toString_def trim_decimal trim_minus_decimal
      decimal_digits_nonempty NonDecimal_decimal NonDecimal_minus SignedInteger_decimal
      SignedInteger_minus)

lemma BigInt_toString_roundtrip: "BigInt (BigInt_toString i) = Inr i"
  by (simp add: BigInt_def StringToBigInt_toString)

lemma BigInt_toString_inj: "BigInt_toString i = BigInt_toString j \<Longrightarrow> i = j"
  by (metis StringToBigInt_toString option.inject)

section \<open>Round trip of the codec\<close>

lemma parse_encode:
  assumes "0 \<le> d" "d \<le> 31" "0 \<le> w" "w \<le> 31" "0 \<le> s" "s \<le> 4095"
  shows "parseSnowflakeId (BigInt_toString (encode t d w s)) e =
           Inr \<lparr> timestamp = round_to_double (round_to_double t + epoch_arg e),
                 components.datacenterId = d,
                 components.workerId = w, components.sequence = s,
                 date = Date_new (round_to_double (round_to_double t + epoch_arg e)) \<rparr>"
  by (simp add: parseSnowflakeId_def BigInt_toString_roundtrip parse_fields[OF assms] Let_def
      Number_of_BigInt_def)

lemma timestamp_encode:
  assumes "0 \<le> d" "d \<le> 31" "0 \<le> w" "w \<le> 31" "0 \<le> s" "s \<le> 4095"
  shows "getSnowflakeTimestamp (BigInt_toString (encode t d w s)) e =
           Inr (round_to_double (round_to_double t + epoch_arg e))"
  by (simp add: getSnowflakeTimestamp_def BigInt_toString_roundtrip parse_fields[OF assms]
      Number_of_BigInt_def)

text \<open>
  C1 (as amended). For every field tuple with datacenterId and workerId in 0..31,
  sequence in 0..4095 and a non-negative timestamp offset of at most 41 bits, and every
  epoch whose sum with the offset has magnitude at most 2^53, decoding the text of the
  encoded identifier with the same epoch gives back datacenterId, workerId and sequence,
  and the timestamp epoch + offset (also through \<open>getSnowflakeTimestamp\<close>).
\<close>

theorem decode_encode_roundtrip:
  assumes "0 \<le> d" "d \<le> 31" "0 \<le> w" "w \<le> 31" "0 \<le> s" "s \<le> 4095"
    and "0 \<le> off" "off < 2 ^ 41" and "\<bar>e + off\<bar> \<le> 2 ^ 53"
  shows "parseSnowflakeId (BigInt_toString (encode off d w s)) (Some e) =
           Inr \<lparr> timestamp = e + off, components.datacenterId = d,
                 components.workerId = w, components.sequence = s,
                 date = Date_new (e + off) \<rparr>
         \<and> getSnowflakeTimestamp (BigInt_toString (encode off d w s)) (Some e) = Inr (e + off)"
proof -
  have "round_to_double off = off"
    using assms(7,8) by (intro round_to_double_exact) simp
  moreover have "round_to_double (off + e) = off + e"
    using assms(9) by (intro round_to_double_exact) (simp add: add.commute)
  ultimately have "round_to_double (round_to_double off + epoch_arg (Some e)) = e + off"
    by (simp add: epoch_arg_def)
  then show ?thesis
    using parse_encode[OF assms(1-6), of off "Some e"] timestamp_encode[OF assms(1-6), of off "Some e"]
    by simp
qed

theorem decode_encode_roundtrip_witness:
  "(0::int) \<le> 5 \<and> (5::int) \<le> 31 \<and> (0::int) \<le> 10 \<and> (10::int) \<le> 31
   \<and> (0::int) \<le> 0 \<and> (0::int) \<le> 4095 \<and> (0::int) \<le> 123 \<and> (123::int) < 2 ^ 41
   \<and> \<bar>1577836800000 + 123 :: int\<bar> \<le> 2 ^ 53
   \<and> BigInt_toString (encode 123 5 10 0) = ''516595712''
   \<and> parseSnowflakeId ''516595712'' (Some 1577836800000) =
        Inr \<lparr> timestamp = 1577836800123, components.datacenterId = 5,
              components.workerId = 10, components.sequence = 0,
              date = Some 1577836800123 \<rparr>
   \<and> getSnowflakeTimestamp ''516595712'' (Some 1577836800000) = Inr 1577836800123"
proof -
  have text_of_id: "BigInt_toString (encode 123 5 10 0) = ''516595712''"
    by (simp add: encode_def shifts BigInt_toString_def decimal_digits.simps digit_char_def)
  show ?thesis
    using decode_encode_roundtrip [of 5 10 0 123 1577836800000]
    by (simp add: text_of_id Date_new_def)
qed

text \<open>
  C1 as stated, for every epoch, fails: at the epoch 2^53 and the offset 1 the sum of
  doubles is 2^53, and the decoded timestamp is not epoch + offset.
\<close>

theorem decode_encode_roundtrip_counterexample:
  "BigInt_toString (encode 1 0 0 0) = ''4194304''
   \<and> parseSnowflakeId ''4194304'' (Some 9007199254740992) =
        Inr \<lparr> timestamp = 9007199254740992, components.datacenterId = 0,
              components.workerId = 0, components.sequence = 0, date = None \<rparr>
   \<and> getSnowflakeTimestamp ''4194304'' (Some 9007199254740992) = Inr 9007199254740992
   \<and> (9007199254740992 :: int) + 1 \<noteq> 9007199254740992"
proof -
  have text_of_id: "BigInt_toString (encode 1 0 0 0) = ''4194304''"
    by (simp add: encode_def shifts BigInt_toString_def decimal_digits.simps digit_char_def)
  have "round_to_double (round_to_double 1 + epoch_arg (Some 9007199254740992))
          = 9007199254740992"
    by (simp add: round_to_double_exact epoch_arg_def round_2_53_plus_1)
  then have "parseSnowflakeId (BigInt_toString (encode 1 0 0 0)) (Some 9007199254740992) =
        Inr \<lparr> timestamp = 9007199254740992, components.datacenterId = 0,
              components.workerId = 0, components.sequence = 0, date = None \<rparr>"
    and "getSnowflakeTimestamp (BigInt_toString (encode 1 0 0 0)) (Some 9007199254740992)
          = Inr 9007199254740992"
    using parse_encode[of 0 0 0 1 "Some 9007199254740992"]
      timestamp_encode[of 0 0 0 1 "Some 9007199254740992"]
    by (simp_all add: Date_new_def)
  then show ?thesis by (simp add: text_of_id)
qed

section \<open>Construction\<close>

lemma createSnowflake_cases:
  "createSnowflake config =
     (let d = destructure config ''datacenterId'' (Num 0);
          w = destructure config ''workerId'' (Num 0) in
      if Number_less d (Num 0) \<or> Number_less (Num 31) d then
        Inl (Error ''Datacenter ID must be between 0 and 31'')
      else if Number_less w (Num 0) \<or> Number_less (Num 31) w then
        Inl (Error ''Worker ID must be between 0 and 31'')
      else Inr \<lparr> epoch = destructure config ''epoch'' (Num DEFAULT_EPOCH), datacenterId = d,
                  workerId = w, lastTimestamp = - 1, sequence = 0 \<rparr>)"
  by (simp add: createSnowflake_def max_values Let_def BigInt_toString_def
      decimal_digits.simps digit_char_def)

text \<open>
  On integers the two tests are the range check that the messages announce: construction
  fails with the message of the field exactly when datacenterId or workerId (after the
  defaults) lies outside 0..31, and otherwise the state starts with lastTimestamp = -1
  and sequence = 0.
\<close>

lemma createSnowflake_integers:
  assumes "destructure config ''datacenterId'' (Num 0) = Num d"
    and "destructure config ''workerId'' (Num 0) = Num w"
  shows "((\<exists>msg. createSnowflake config = Inl (Error msg)) \<longleftrightarrow>
            \<not> (0 \<le> d \<and> d \<le> 31 \<and> 0 \<le> w \<and> w \<le> 31))
         \<and> (\<not> (0 \<le> d \<and> d \<le> 31)
              \<longrightarrow> createSnowflake config = Inl (Error ''Datacenter ID must be between 0 and 31''))
         \<and> (0 \<le> d \<and> d \<le> 31 \<and> \<not> (0 \<le> w \<and> w \<le> 31)
              \<longrightarrow> createSnowflake config = Inl (Error ''Worker ID must be between 0 and 31''))
         \<and> (0 \<le> d \<and> d \<le> 31 \<and> 0 \<le> w \<and> w \<le> 31
              \<longrightarrow> createSnowflake config =
                    Inr \<lparr> epoch = destructure config ''epoch'' (Num DEFAULT_EPOCH),
                          datacenterId = Num d, workerId = Num w,
                          lastTimestamp = - 1, sequence = 0 \<rparr>)"
  unfolding createSnowflake_cases Let_def assms by (auto simp add: Number_less_def)

lemma createSnowflake_boundaries:
  "createSnowflake [''datacenterId'' \<mapsto> Value (Num (- 1))]
     = Inl (Error ''Datacenter ID must be between 0 and 31'')
   \<and> createSnowflake [''datacenterId'' \<mapsto> Value (Num 32)]
     = Inl (Error ''Datacenter ID must be between 0 and 31'')
   \<and> createSnowflake [''workerId'' \<mapsto> Value (Num (- 1))]
     = Inl (Error ''Worker ID must be between 0 and 31'')
   \<and> createSnowflake [''workerId'' \<mapsto> Value (Num 32)]
     = Inl (Error ''Worker ID must be between 0 and 31'')
   \<and> createSnowflake [''datacenterId'' \<mapsto> Value (Num 0), ''workerId'' \<mapsto> Value (Num 31)] =
         Inr \<lparr> epoch = Num 1577836800000, datacenterId = Num 0, workerId = Num 31,
               lastTimestamp = - 1, sequence = 0 \<rparr>
   \<and> createSnowflake [''datacenterId'' \<mapsto> Value (Num 31), ''workerId'' \<mapsto> Value (Num 0)] =
         Inr \<lparr> epoch = Num 1577836800000, datacenterId = Num 31, workerId = Num 0,
               lastTimestamp = - 1, sequence = 0 \<rparr>"
  by (simp add: createSnowflake_cases destructure_def DEFAULT_EPOCH_def Number_less_def)

text \<open>
  C6. The property: construction fails exactly when datacenterId or workerId lies
  outside 0..31. Evaluated on the code at a workerId, and at a datacenterId, that is
  \<open>NaN\<close>: both comparisons of the range test are false, construction succeeds and returns
  a generator that holds the \<open>NaN\<close>; its calls throw the range error of \<open>BigInt(NaN)\<close>.
\<close>

theorem construction_accepts_NaN:
  "createSnowflake [''workerId'' \<mapsto> Value NaN] =
     Inr \<lparr> epoch = Num 1577836800000, datacenterId = Num 0, workerId = NaN,
           lastTimestamp = - 1, sequence = 0 \<rparr>
   \<and> createSnowflake [''datacenterId'' \<mapsto> Value NaN] =
     Inr \<lparr> epoch = Num 1577836800000, datacenterId = NaN, workerId = Num 0,
           lastTimestamp = - 1, sequence = 0 \<rparr>
   \<and> generate (ticking_clock 1577836800123)
       (\<lparr> epoch = Num 1577836800000, datacenterId = Num 0, workerId = NaN,
          lastTimestamp = - 1, sequence = 0 \<rparr>, 0)
     = Some (Inl RangeError,
         \<lparr> epoch = Num 1577836800000, datacenterId = Num 0, workerId = NaN,
            lastTimestamp = 1577836800123, sequence = 0 \<rparr>, 1)"
  by (simp add: createSnowflake_cases destructure_def DEFAULT_EPOCH_def Number_less_def
      generate_def next_tick_def Let_def ticking_clock_def Number_minus_def
      BigInt_of_number_def)

lemma next_tick_error_iff:
  "(\<exists>e g' k'. next_tick now (g, k) = Some (Inl e, g', k')) \<longleftrightarrow> now k < lastTimestamp g"
  by (auto simp add: next_tick_def Let_def split: option.splits)

lemma next_tick_error:
  "next_tick now (g, k) = Some (Inl e, g', k') \<Longrightarrow>
     e = Error ''Clock moved backwards. Refusing to generate id'' \<and> g' = g \<and> k' = Suc k
     \<and> now k < lastTimestamp g"
  by (auto simp add: next_tick_def Let_def split: option.splits if_splits)

lemma next_tick_constants:
  "next_tick now (g, k) = Some (r, g', k') \<Longrightarrow>
     epoch g' = epoch g \<and> datacenterId g' = datacenterId g \<and> workerId g' = workerId g"
  by (auto simp add: next_tick_def Let_def split: option.splits if_splits)

text \<open>A call on a generator whose constants are integers: the conversions cannot throw.\<close>

lemma generate_integral:
  assumes "epoch g = Num e" "datacenterId g = Num d" "workerId g = Num w"
  shows "generate now (g, k) =
           (case next_tick now (g, k) of
              None \<Rightarrow> None
            | Some (Inl err, g', k') \<Rightarrow> Some (Inl err, g', k')
            | Some (Inr ts, g', k') \<Rightarrow>
                Some (Inr (BigInt_toString
                             (encode (round_to_double (ts - e)) d w (sequence g'))),
                      g', k'))"
proof (cases "next_tick now (g, k)")
  case None
  then show ?thesis by (simp add: generate_def)
next
  case (Some r)
  obtain res g' k' where r: "r = (res, g', k')" by (cases r) auto
  from next_tick_constants[of now g k res g' k'] Some r assms
  have "epoch g' = Num e" "datacenterId g' = Num d" "workerId g' = Num w" by simp_all
  with Some r show ?thesis
    by (cases res) (simp_all add: generate_def Number_minus_def BigInt_of_number_def)
qed

lemma generate_regression_iff:
  "(\<exists>g' k'. generate now (g, k) =
       Some (Inl (Error ''Clock moved backwards. Refusing to generate id''), g', k'))
     \<longleftrightarrow> now k < lastTimestamp g"
proof
  assume "\<exists>g' k'. generate now (g, k) =
       Some (Inl (Error ''Clock moved backwards. Refusing to generate id''), g', k')"
  then obtain g' k' where
    "next_tick now (g, k) =
       Some (Inl (Error ''Clock moved backwards. Refusing to generate id''), g', k')"
    by (auto simp add: generate_def BigInt_of_number_def
        split: option.splits sum.splits prod.splits number.splits)
  from next_tick_error[OF this] show "now k < lastTimestamp g" by simp
next
  assume "now k < lastTimestamp g"
  then have "generate now (g, k) =
       Some (Inl (Error ''Clock moved backwards. Refusing to generate id''), g, Suc k)"
    by (simp add: generate_def next_tick_def Let_def)
  then show "\<exists>g' k'. generate now (g, k) =
       Some (Inl (Error ''Clock moved backwards. Refusing to generate id''), g', k')"
    by blast
qed

lemma generate_error_iff:
  assumes "epoch g = Num e" "datacenterId g = Num d" "workerId g = Num w"
  shows "(\<exists>err g' k'. generate now (g, k) = Some (Inl err, g', k')) \<longleftrightarrow> now k < lastTimestamp g"
  unfolding generate_integral[OF assms] next_tick_error_iff[symmetric]
  by (auto split: option.splits sum.splits prod.splits)

text \<open>
  C5. A call of the generator throws the clock-regression error if and only if the
  clock reading taken at its start is strictly less than the stored lastTimestamp; the
  clock has then been read once and the state is unchanged (no correction, no retry).
  On a generator whose constants are integers a call throws nothing else.
\<close>

theorem clock_regression_iff:
  "((\<exists>g' k'. generate now (g, k) =
        Some (Inl (Error ''Clock moved backwards. Refusing to generate id''), g', k'))
      \<longleftrightarrow> now k < lastTimestamp g)
   \<and> (now k < lastTimestamp g \<longrightarrow>
        generate now (g, k) =
          Some (Inl (Error ''Clock moved backwards. Refusing to generate id''), g, Suc k))
   \<and> (epoch g \<noteq> NaN \<and> datacenterId g \<noteq> NaN \<and> workerId g \<noteq> NaN \<longrightarrow>
        ((\<exists>e g' k'. generate now (g, k) = Some (Inl e, g', k')) \<longleftrightarrow> now k < lastTimestamp g))"
proof (intro conjI)
  show "(\<exists>g' k'. generate now (g, k) =
        Some (Inl (Error ''Clock moved backwards. Refusing to generate id''), g', k'))
      \<longleftrightarrow> now k < lastTimestamp g"
    by (rule generate_regression_iff)
  show "now k < lastTimestamp g \<longrightarrow>
        generate now (g, k) =
          Some (Inl (Error ''Clock moved backwards. Refusing to generate id''), g, Suc k)"
    by (simp add: generate_def next_tick_def Let_def)
  show "epoch g \<noteq> NaN \<and> datacenterId g \<noteq> NaN \<and> workerId g \<noteq> NaN \<longrightarrow>
        ((\<exists>e g' k'. generate now (g, k) = Some (Inl e, g', k')) \<longleftrightarrow> now k < lastTimestamp g)"
  proof
    assume "epoch g \<noteq> NaN \<and> datacenterId g \<noteq> NaN \<and> workerId g \<noteq> NaN"
    then obtain e d w where "epoch g = Num e" "datacenterId g = Num d" "workerId g = Num w"
      by (cases "epoch g"; cases "datacenterId g"; cases "workerId g") auto
    then show "(\<exists>e g' k'. generate now (g, k) = Some (Inl e, g', k')) \<longleftrightarrow> now k < lastTimestamp g"
      by (rule generate_error_iff)
  qed
qed

theorem clock_regression_iff_witness:
  "generate (ticking_clock 999)
      (\<lparr> epoch = Num 0, datacenterId = Num 0, workerId = Num 0, lastTimestamp = 1000,
         sequence = 0 \<rparr>, 0)
     = Some (Inl (Error ''Clock moved backwards. Refusing to generate id''),
         \<lparr> epoch = Num 0, datacenterId = Num 0, workerId = Num 0, lastTimestamp = 1000,
            sequence = 0 \<rparr>, 1)
   \<and> (ticking_clock 999 0 < 1000)"
  using clock_regression_iff [of "ticking_clock 999"
      "\<lparr> epoch = Num 0, datacenterId = Num 0, workerId = Num 0, lastTimestamp = 1000,
         sequence = 0 \<rparr>" 0]
  by (simp add: ticking_clock_def)

section \<open>The busy wait\<close>

lemma spin_wait_done: "lastTs < ts \<Longrightarrow> spin_wait now lastTs ts k = Some (ts, k)"
  by (subst spin_wait.simps) simp

lemma spin_wait_step:
  "ts \<le> lastTs \<Longrightarrow> spin_wait now lastTs ts k = spin_wait now lastTs (now k) (Suc k)"
  by (subst spin_wait.simps) simp

lemma spin_wait_finds:
  assumes "ts \<le> lastTs" "k \<le> j" "\<forall>i. k \<le> i \<and> i < j \<longrightarrow> now i \<le> lastTs" "lastTs < now j"
  shows "spin_wait now lastTs ts k = Some (now j, Suc j)"
  using assms
proof (induction "j - k" arbitrary: k ts)
  case 0
  then have "k = j" by simp
  with 0 show ?case by (simp add: spin_wait_step spin_wait_done)
next
  case (Suc n)
  then have "k < j" by simp
  with Suc.prems have "now k \<le> lastTs" by simp
  moreover have "n = j - Suc k" using Suc.hyps(2) by simp
  ultimately have "spin_wait now lastTs (now k) (Suc k) = Some (now j, Suc j)"
    using Suc.prems \<open>k < j\<close> by (intro Suc.hyps(1)) simp_all
  with Suc.prems(1) show ?case by (simp add: spin_wait_step)
qed

lemma spin_wait_result:
  assumes "spin_wait now lastTs ts k = Some r"
  shows "lastTs < fst r \<and> k \<le> snd r"
proof (rule spin_wait.raw_induct
    [where P = "\<lambda>now lastTs ts k r. lastTs < fst r \<and> k \<le> snd r", OF _ assms])
  fix f :: "clock \<Rightarrow> int \<Rightarrow> int \<Rightarrow> nat \<Rightarrow> (int \<times> nat) option"
    and now lastTs ts k r
  assume IH: "\<And>now lastTs ts k r. f now lastTs ts k = Some r \<Longrightarrow> lastTs < fst r \<and> k \<le> snd r"
    and step: "(if ts \<le> lastTs then f now lastTs (now k) (Suc k) else Some (ts, k)) = Some r"
  show "lastTs < fst r \<and> k \<le> snd r"
  proof (cases "ts \<le> lastTs")
    case True
    with step have "f now lastTs (now k) (Suc k) = Some r" by simp
    from IH[OF this] show ?thesis by simp
  next
    case False
    with step show ?thesis by auto
  qed
qed

lemma spin_wait_never:
  assumes "spin_wait now lastTs ts k = Some r"
  shows "\<not> (ts \<le> lastTs \<and> (\<forall>j\<ge>k. now j \<le> lastTs))"
proof (rule spin_wait.raw_induct
    [where P = "\<lambda>now lastTs ts k r. \<not> (ts \<le> lastTs \<and> (\<forall>j\<ge>k. now j \<le> lastTs))", OF _ assms])
  fix f :: "clock \<Rightarrow> int \<Rightarrow> int \<Rightarrow> nat \<Rightarrow> (int \<times> nat) option"
    and now lastTs ts k r
  assume IH: "\<And>now lastTs ts k r. f now lastTs ts k = Some r
                \<Longrightarrow> \<not> (ts \<le> lastTs \<and> (\<forall>j\<ge>k. now j \<le> lastTs))"
    and step: "(if ts \<le> lastTs then f now lastTs (now k) (Suc k) else Some (ts, k)) = Some r"
  show "\<not> (ts \<le> lastTs \<and> (\<forall>j\<ge>k. now j \<le> lastTs))"
  proof (cases "ts \<le> lastTs")
    case True
    with step have "f now lastTs (now k) (Suc k) = Some r" by simp
    from IH[OF this] have "\<not> (now k \<le> lastTs \<and> (\<forall>j\<ge>Suc k. now j \<le> lastTs))" .
    then obtain j where "k \<le> j" "\<not> now j \<le> lastTs"
      by (metis Suc_leD order_refl)
    then show ?thesis by blast
  next
    case False
    then show ?thesis by simp
  qed
qed

lemma spin_wait_diverges:
  "ts \<le> lastTs \<Longrightarrow> \<forall>j\<ge>k. now j \<le> lastTs \<Longrightarrow> spin_wait now lastTs ts k = None"
  using spin_wait_never[of now lastTs ts k] by (cases "spin_wait now lastTs ts k") auto

section \<open>One call of the generator\<close>

lemma next_seq: "(s + 1) AND MAX_SEQUENCE = (s + 1) mod 4096"
  by (simp add: max_values and_4095)

lemma generate_same_ms:
  assumes "epoch g = Num e" "datacenterId g = Num d" "workerId g = Num w"
    and "now k = lastTimestamp g" "(sequence g + 1) mod 4096 \<noteq> 0"
  shows "generate now (g, k) =
           Some (Inr (BigInt_toString (encode (round_to_double (now k - e)) d w
                        ((sequence g + 1) mod 4096))),
                 g \<lparr> sequence := (sequence g + 1) mod 4096, lastTimestamp := now k \<rparr>, Suc k)"
  using assms(4,5) by (simp add: generate_integral[OF assms(1-3)] next_tick_def Let_def next_seq)

lemma generate_new_ms:
  assumes "epoch g = Num e" "datacenterId g = Num d" "workerId g = Num w"
    and "lastTimestamp g < now k"
  shows "generate now (g, k) =
           Some (Inr (BigInt_toString (encode (round_to_double (now k - e)) d w 0)),
                 g \<lparr> sequence := 0, lastTimestamp := now k \<rparr>, Suc k)"
  using assms(4) by (simp add: generate_integral[OF assms(1-3)] next_tick_def Let_def)

lemma generate_exhausted:
  assumes "epoch g = Num e" "datacenterId g = Num d" "workerId g = Num w"
    and "now k = lastTimestamp g" "(sequence g + 1) mod 4096 = 0"
    and "k < j" "\<forall>i. k < i \<and> i < j \<longrightarrow> now i \<le> lastTimestamp g" "lastTimestamp g < now j"
  shows "generate now (g, k) =
           Some (Inr (BigInt_toString (encode (round_to_double (now j - e)) d w 0)),
                 g \<lparr> sequence := 0, lastTimestamp := now j \<rparr>, Suc j)"
proof -
  have "spin_wait now (lastTimestamp g) (now k) (Suc k) = Some (now j, Suc j)"
    using assms(4-) by (intro spin_wait_finds) simp_all
  with assms(4,5) show ?thesis
    by (simp add: generate_integral[OF assms(1-3)] next_tick_def Let_def next_seq)
qed

lemma generate_exhausted_forever:
  assumes "now k = lastTimestamp g" "(sequence g + 1) mod 4096 = 0"
    and "\<forall>j>k. now j \<le> lastTimestamp g"
  shows "generate now (g, k) = None"
proof -
  have "spin_wait now (lastTimestamp g) (now k) (Suc k) = None"
    using assms by (intro spin_wait_diverges) (simp_all add: Suc_le_eq)
  with assms(1,2) show ?thesis
    by (simp add: generate_def next_tick_def Let_def next_seq)
qed

lemma generate_no_error:
  assumes "epoch g = Num e" "datacenterId g = Num d" "workerId g = Num w"
    and "lastTimestamp g \<le> now k"
  shows "generate now (g, k) \<noteq> Some (Inl err, gk')"
  using assms(4) generate_error_iff[OF assms(1-3), of now k]
  by (cases gk') auto

text \<open>
  C4. On a generator whose constants are the integers \<open>e\<close>, \<open>d\<close> and \<open>w\<close>: when the
  reading equals lastTimestamp, the sequence becomes (sequence + 1) mod 4096. If that is
  not 0 the call returns at once, after one reading. If it is 0 the call reads the clock
  again and again: it returns with the first later reading that exceeds lastTimestamp as
  the tick and with sequence 0, it never returns when no later reading exceeds
  lastTimestamp, and it throws no error. When the reading is greater than lastTimestamp
  the sequence is reset to 0, after one reading. The identifier returned packs the
  difference of tick and epoch as the double subtraction gives it.
\<close>

theorem sequence_exhaustion:
  assumes "epoch g = Num e" "datacenterId g = Num d" "workerId g = Num w"
  shows
  "(now k = lastTimestamp g \<and> (sequence g + 1) mod 4096 \<noteq> 0 \<longrightarrow>
      generate now (g, k) =
        Some (Inr (BigInt_toString (encode (round_to_double (now k - e)) d w
                     ((sequence g + 1) mod 4096))),
              g \<lparr> sequence := (sequence g + 1) mod 4096, lastTimestamp := now k \<rparr>, Suc k))
   \<and> (now k = lastTimestamp g \<and> (sequence g + 1) mod 4096 = 0 \<longrightarrow>
        (\<forall>j. k < j \<and> (\<forall>i. k < i \<and> i < j \<longrightarrow> now i \<le> lastTimestamp g) \<and> lastTimestamp g < now j
           \<longrightarrow> generate now (g, k) =
                 Some (Inr (BigInt_toString (encode (round_to_double (now j - e)) d w 0)),
                       g \<lparr> sequence := 0, lastTimestamp := now j \<rparr>, Suc j))
        \<and> ((\<forall>j>k. now j \<le> lastTimestamp g) \<longrightarrow> generate now (g, k) = None)
        \<and> (\<forall>err gk'. generate now (g, k) \<noteq> Some (Inl err, gk')))
   \<and> (lastTimestamp g < now k \<longrightarrow>
        generate now (g, k) =
          Some (Inr (BigInt_toString (encode (round_to_double (now k - e)) d w 0)),
                g \<lparr> sequence := 0, lastTimestamp := now k \<rparr>, Suc k))"
proof (intro conjI impI allI)
  assume "now k = lastTimestamp g \<and> (sequence g + 1) mod 4096 \<noteq> 0"
  then show "generate now (g, k) =
        Some (Inr (BigInt_toString (encode (round_to_double (now k - e)) d w
                     ((sequence g + 1) mod 4096))),
              g \<lparr> sequence := (sequence g + 1) mod 4096, lastTimestamp := now k \<rparr>, Suc k)"
    by (intro generate_same_ms assms) simp_all
next
  fix j
  assume "now k = lastTimestamp g \<and> (sequence g + 1) mod 4096 = 0"
    and "k < j \<and> (\<forall>i. k < i \<and> i < j \<longrightarrow> now i \<le> lastTimestamp g) \<and> lastTimestamp g < now j"
  then show "generate now (g, k) =
                 Some (Inr (BigInt_toString (encode (round_to_double (now j - e)) d w 0)),
                       g \<lparr> sequence := 0, lastTimestamp := now j \<rparr>, Suc j)"
    by (intro generate_exhausted assms) simp_all
next
  assume "now k = lastTimestamp g \<and> (sequence g + 1) mod 4096 = 0"
    and "\<forall>j>k. now j \<le> lastTimestamp g"
  then show "generate now (g, k) = None"
    by (intro generate_exhausted_forever) simp_all
next
  fix err gk'
  assume "now k = lastTimestamp g \<and> (sequence g + 1) mod 4096 = 0"
  then show "generate now (g, k) \<noteq> Some (Inl err, gk')"
    by (intro generate_no_error[OF assms]) simp
next
  assume "lastTimestamp g < now k"
  then show "generate now (g, k) =
          Some (Inr (BigInt_toString (encode (round_to_double (now k - e)) d w 0)),
                g \<lparr> sequence := 0, lastTimestamp := now k \<rparr>, Suc k)"
    by (intro generate_new_ms assms)
qed

lemmas eval_text = BigInt_toString_def decimal_digits.simps digit_char_def encode_sum
  round_to_double_exact

theorem sequence_exhaustion_witness:
  "generate (stalled_clock 1000 3)
      (\<lparr> epoch = Num 0, datacenterId = Num 0, workerId = Num 0, lastTimestamp = 1000,
         sequence = 5 \<rparr>, 0)
     = Some (Inr ''4194304006'',
         \<lparr> epoch = Num 0, datacenterId = Num 0, workerId = Num 0, lastTimestamp = 1000,
            sequence = 6 \<rparr>, 1)
   \<and> generate (stalled_clock 1000 3)
      (\<lparr> epoch = Num 0, datacenterId = Num 0, workerId = Num 0, lastTimestamp = 1000,
         sequence = 4095 \<rparr>, 0)
     = Some (Inr ''4198498304'',
         \<lparr> epoch = Num 0, datacenterId = Num 0, workerId = Num 0, lastTimestamp = 1001,
            sequence = 0 \<rparr>, 4)
   \<and> generate (stalled_clock 1000 3)
      (\<lparr> epoch = Num 0, datacenterId = Num 0, workerId = Num 0, lastTimestamp = 999,
         sequence = 7 \<rparr>, 0)
     = Some (Inr ''4194304000'',
         \<lparr> epoch = Num 0, datacenterId = Num 0, workerId = Num 0, lastTimestamp = 1000,
            sequence = 0 \<rparr>, 1)"
proof -
  let ?g = "\<lambda>l s. \<lparr> epoch = Num 0, datacenterId = Num 0, workerId = Num 0, lastTimestamp = l,
                      sequence = s \<rparr>"
  have a: "stalled_clock 1000 3 0 = 1000" "stalled_clock 1000 3 3 = 1001"
    by (simp_all add: stalled_clock_def)
  have b: "\<forall>i. 0 < i \<and> i < 3 \<longrightarrow> stalled_clock 1000 3 i \<le> 1000"
    by (simp add: stalled_clock_def)
  have 1: "generate (stalled_clock 1000 3) (?g 1000 5, 0) =
             Some (Inr ''4194304006'', ?g 1000 6, 1)"
    using sequence_exhaustion [where g = "?g 1000 5" and e = 0 and d = 0 and w = 0
        and now = "stalled_clock 1000 3" and k = 0]
    by (simp add: a eval_text)
  have "\<forall>j. 0 < j \<and> (\<forall>i. 0 < i \<and> i < j \<longrightarrow> stalled_clock 1000 3 i \<le> 1000)
             \<and> 1000 < stalled_clock 1000 3 j \<longrightarrow>
           generate (stalled_clock 1000 3) (?g 1000 4095, 0) =
             Some (Inr (BigInt_toString
                          (encode (round_to_double (stalled_clock 1000 3 j - 0)) 0 0 0)),
                   ?g (stalled_clock 1000 3 j) 0, Suc j)"
    using sequence_exhaustion [where g = "?g 1000 4095" and e = 0 and d = 0 and w = 0
        and now = "stalled_clock 1000 3" and k = 0]
    by (simp add: a)
  then have "0 < (3::nat) \<and> (\<forall>i. 0 < i \<and> i < 3 \<longrightarrow> stalled_clock 1000 3 i \<le> 1000)
             \<and> 1000 < stalled_clock 1000 3 3 \<longrightarrow>
           generate (stalled_clock 1000 3) (?g 1000 4095, 0) =
             Some (Inr (BigInt_toString
                          (encode (round_to_double (stalled_clock 1000 3 3 - 0)) 0 0 0)),
                   ?g (stalled_clock 1000 3 3) 0, Suc 3)"
    by (rule spec)
  with b have 2: "generate (stalled_clock 1000 3) (?g 1000 4095, 0) =
             Some (Inr ''4198498304'', ?g 1001 0, 4)"
    by (simp add: a eval_text)
  have 3: "generate (stalled_clock 1000 3) (?g 999 7, 0) =
             Some (Inr ''4194304000'', ?g 1000 0, 1)"
    using sequence_exhaustion [where g = "?g 999 7" and e = 0 and d = 0 and w = 0
        and now = "stalled_clock 1000 3" and k = 0]
    by (simp add: a eval_text)
  from 1 2 3 show ?thesis by simp
qed

section \<open>Invariants of a run\<close>

lemma current_id_sum:
  "in_range g \<Longrightarrow>
     current_id g = (lastTimestamp g - int_of (epoch g)) * 4194304
                    + int_of (datacenterId g) * 131072
                    + int_of (workerId g) * 4096 + sequence g"
  unfolding current_id_def in_range_def by (intro encode_sum) simp_all

lemma createSnowflake_in_range:
  "createSnowflake config = Inr g \<Longrightarrow> integral g \<Longrightarrow>
     in_range g \<and> lastTimestamp g = - 1 \<and> sequence g = 0"
  unfolding createSnowflake_cases Let_def in_range_def integral_def
  by (auto simp add: Number_less_def int_of_def split: if_splits number.splits)

lemma spin_wait_reading:
  assumes "spin_wait now lastTs ts k = Some r"
  shows "r = (ts, k) \<or> (k < snd r \<and> fst r = now (snd r - 1))"
proof (rule spin_wait.raw_induct
    [where P = "\<lambda>now lastTs ts k r. r = (ts, k) \<or> (k < snd r \<and> fst r = now (snd r - 1))",
      OF _ assms])
  fix f :: "clock \<Rightarrow> int \<Rightarrow> int \<Rightarrow> nat \<Rightarrow> (int \<times> nat) option"
    and now lastTs ts k r
  assume IH: "\<And>now lastTs ts k r. f now lastTs ts k = Some r
                \<Longrightarrow> r = (ts, k) \<or> (k < snd r \<and> fst r = now (snd r - 1))"
    and step: "(if ts \<le> lastTs then f now lastTs (now k) (Suc k) else Some (ts, k)) = Some r"
  show "r = (ts, k) \<or> (k < snd r \<and> fst r = now (snd r - 1))"
  proof (cases "ts \<le> lastTs")
    case True
    with step have "f now lastTs (now k) (Suc k) = Some r" by simp
    from IH[OF this] show ?thesis by auto
  next
    case False
    with step show ?thesis by auto
  qed
qed

text \<open>What a successful pass through lines 59 to 79 leaves behind.\<close>

lemma next_tick_success:
  assumes "next_tick now (g, k) = Some (Inr ts, g', k')"
  shows "lastTimestamp g' = ts \<and> epoch g' = epoch g \<and> datacenterId g' = datacenterId g
         \<and> workerId g' = workerId g \<and> k < k' \<and> ts = now (k' - 1) \<and> now k \<le> ts
         \<and> (lastTimestamp g < ts \<and> sequence g' = 0
            \<or> ts = lastTimestamp g \<and> sequence g' = (sequence g + 1) mod 4096
               \<and> sequence g' \<noteq> 0)"
proof (cases "now k = lastTimestamp g \<and> (sequence g + 1) mod 4096 = 0")
  case True
  with assms obtain r where r: "spin_wait now (lastTimestamp g) (now k) (Suc k) = Some r"
    and res: "ts = fst r" "k' = snd r" "g' = g \<lparr> sequence := 0, lastTimestamp := fst r \<rparr>"
    by (auto simp add: next_tick_def Let_def next_seq split: option.splits)
  from spin_wait_result[OF r] spin_wait_reading[OF r] True
  have "lastTimestamp g < fst r" "Suc k \<le> snd r" "fst r = now (snd r - 1)"
    by auto
  with res True show ?thesis by auto
next
  case False
  with assms show ?thesis
    by (auto simp add: next_tick_def Let_def next_seq split: if_splits)
qed

text \<open>A call that returns an identifier ran on integers, and packed the rounded offset.\<close>

lemma generate_success:
  assumes "generate now (g, k) = Some (Inr s, g', k')"
  shows "next_tick now (g, k) = Some (Inr (lastTimestamp g'), g', k')
         \<and> integral g \<and> integral g'
         \<and> s = BigInt_toString
                 (encode (round_to_double (lastTimestamp g' - int_of (epoch g')))
                    (int_of (datacenterId g')) (int_of (workerId g')) (sequence g'))"
proof -
  from assms obtain ts where nt: "next_tick now (g, k) = Some (Inr ts, g', k')"
    by (auto simp add: generate_def split: option.splits sum.splits prod.splits)
  from assms nt obtain e d w where
    c: "epoch g' = Num e" "datacenterId g' = Num d" "workerId g' = Num w"
    and s: "s = BigInt_toString (encode (round_to_double (ts - e)) d w (sequence g'))"
    by (cases "epoch g'"; cases "datacenterId g'"; cases "workerId g'")
      (auto simp add: generate_def BigInt_of_number_def Number_minus_def)
  note f = next_tick_success[OF nt]
  from f have "lastTimestamp g' = ts" by simp
  moreover from f c have "epoch g = Num e" "datacenterId g = Num d" "workerId g = Num w"
    by simp_all
  with c have "integral g" "integral g'" by (simp_all add: integral_def)
  ultimately show ?thesis using nt c s by (simp add: int_of_def)
qed

lemma generate_step:
  assumes "in_range g" "generate now (g, k) = Some (Inr s, g', k')"
  shows "in_range g'
         \<and> (\<bar>lastTimestamp g' - int_of (epoch g')\<bar> \<le> 2 ^ 53
              \<longrightarrow> s = BigInt_toString (current_id g'))
         \<and> current_id g < current_id g'
         \<and> epoch g' = epoch g \<and> lastTimestamp g \<le> lastTimestamp g' \<and> k < k'
         \<and> now k \<le> lastTimestamp g' \<and> lastTimestamp g' = now (k' - 1)"
proof -
  from generate_success[OF assms(2)]
  have nt: "next_tick now (g, k) = Some (Inr (lastTimestamp g'), g', k')"
    and s: "s = BigInt_toString
                 (encode (round_to_double (lastTimestamp g' - int_of (epoch g')))
                    (int_of (datacenterId g')) (int_of (workerId g')) (sequence g'))"
    by simp_all
  note f = next_tick_success[OF nt]
  from f assms(1) have r: "in_range g'"
    by (auto simp add: in_range_def integral_def)
  have "sequence g + 1 \<le> 4096" "0 \<le> sequence g" using assms(1) by (simp_all add: in_range_def)
  then have m: "(sequence g + 1) mod 4096 \<noteq> 0 \<Longrightarrow> (sequence g + 1) mod 4096 = sequence g + 1"
    by (cases "sequence g + 1 = 4096") simp_all
  have "sequence g \<le> 4095" using assms(1) by (simp add: in_range_def)
  with f m have "current_id g < current_id g'"
    unfolding current_id_sum[OF assms(1)] current_id_sum[OF r] by auto
  moreover from f have "lastTimestamp g \<le> lastTimestamp g'" by auto
  moreover from f have "epoch g' = epoch g" "k < k'" "now k \<le> lastTimestamp g'"
    "lastTimestamp g' = now (k' - 1)" by simp_all
  moreover have "\<bar>lastTimestamp g' - int_of (epoch g')\<bar> \<le> 2 ^ 53
              \<longrightarrow> s = BigInt_toString (current_id g')"
    using s by (simp add: current_id_def round_to_double_exact)
  ultimately show ?thesis using r by blast
qed

lemma generate_n_Suc_success:
  assumes "generate_n now (Suc n) gk = Some (Inr ids, gk'')"
  obtains s gk' ids' where "generate now gk = Some (Inr s, gk')"
    and "generate_n now n gk' = Some (Inr ids', gk'')" and "ids = s # ids'"
  using assms by (auto split: option.splits sum.splits prod.splits)

text \<open>
  While every tick lies within 2^53 milliseconds of the epoch, the difference of tick
  and epoch is exact, and the identifiers of a run are those of its successive states.
\<close>

lemma generate_n_ids:
  assumes "in_range g" "generate_n now n (g, k) = Some (Inr ids, g', k')"
    and "int_of (epoch g) - 2 ^ 53 \<le> lastTimestamp g \<or> int_of (epoch g) - 2 ^ 53 \<le> now k"
    and "lastTimestamp g' \<le> int_of (epoch g) + 2 ^ 53"
  shows "\<exists>vs. ids = map BigInt_toString vs \<and> length vs = n \<and> sorted_wrt (<) vs
           \<and> (\<forall>v\<in>set vs. current_id g < v \<and> v \<le> current_id g'
                 \<and> (now k - int_of (epoch g)) * 4194304 \<le> v)
           \<and> in_range g' \<and> epoch g' = epoch g \<and> current_id g \<le> current_id g'
           \<and> lastTimestamp g \<le> lastTimestamp g'"
  using assms
proof (induction n arbitrary: g k ids)
  case 0
  then show ?case by simp
next
  case (Suc n)
  from Suc.prems(2) obtain s g1 k1 ids' where
    first: "generate now (g, k) = Some (Inr s, g1, k1)"
    and rest: "generate_n now n (g1, k1) = Some (Inr ids', g', k')"
    and ids: "ids = s # ids'"
    by (elim generate_n_Suc_success) (metis prod.collapse)
  note st = generate_step[OF Suc.prems(1) first]
  then have r1: "in_range g1" by simp
  from st Suc.prems(3) have lo: "int_of (epoch g1) - 2 ^ 53 \<le> lastTimestamp g1" by auto
  then have lo1: "int_of (epoch g1) - 2 ^ 53 \<le> lastTimestamp g1
                  \<or> int_of (epoch g1) - 2 ^ 53 \<le> now k1" by simp
  from st Suc.prems(4) have hi1: "lastTimestamp g' \<le> int_of (epoch g1) + 2 ^ 53" by simp
  from Suc.IH[OF r1 rest lo1 hi1] obtain vs where
    vs: "ids' = map BigInt_toString vs" "length vs = n" "sorted_wrt (<) vs"
      "\<forall>v\<in>set vs. current_id g1 < v \<and> v \<le> current_id g'"
      "in_range g'" "epoch g' = epoch g1" "current_id g1 \<le> current_id g'"
      "lastTimestamp g1 \<le> lastTimestamp g'"
    by auto
  from lo hi1 vs(8) have "\<bar>lastTimestamp g1 - int_of (epoch g1)\<bar> \<le> 2 ^ 53" by simp
  with st have s: "s = BigInt_toString (current_id g1)" by simp
  have low: "(now k - int_of (epoch g)) * 4194304 \<le> current_id g1"
  proof -
    have "(now k - int_of (epoch g)) * 4194304
            \<le> (lastTimestamp g1 - int_of (epoch g1)) * 4194304"
      using st by simp
    also have "\<dots> \<le> current_id g1"
      using r1 unfolding current_id_sum[OF r1] in_range_def by simp
    finally show ?thesis .
  qed
  let ?vs = "current_id g1 # vs"
  have "ids = map BigInt_toString ?vs" using ids vs(1) s by simp
  moreover have "length ?vs = Suc n" using vs(2) by simp
  moreover have "sorted_wrt (<) ?vs" using vs(3,4) by simp
  moreover have "\<forall>v\<in>set ?vs. current_id g < v \<and> v \<le> current_id g'
                   \<and> (now k - int_of (epoch g)) * 4194304 \<le> v"
    using st vs(4,7) low by force
  moreover have "epoch g' = epoch g" "current_id g \<le> current_id g'"
    "lastTimestamp g \<le> lastTimestamp g'"
    using st vs(6,7,8) by simp_all
  ultimately show ?case using vs(5) by blast
qed

text \<open>The same, from construction.\<close>

lemma constructed_run:
  assumes "createSnowflake config = Inr g" and "epoch g = Num e"
    and "generate_n now n (g, k) = Some (Inr ids, g', k')"
    and "e - 2 ^ 53 \<le> now k" and "lastTimestamp g' \<le> e + 2 ^ 53"
  shows "\<exists>vs. ids = map BigInt_toString vs \<and> length vs = n \<and> sorted_wrt (<) vs
           \<and> (\<forall>v\<in>set vs. (now k - e) * 4194304 \<le> v
                 \<and> v \<le> (lastTimestamp g' - e) * 4194304 + 4194303)"
proof (cases n)
  case 0
  with assms(3) show ?thesis by simp
next
  case (Suc m)
  with assms(3) have "generate_n now (Suc m) (g, k) = Some (Inr ids, g', k')" by simp
  then obtain s g1 k1 where "generate now (g, k) = Some (Inr s, g1, k1)"
    by (elim generate_n_Suc_success) (metis prod.collapse)
  from generate_success[OF this] have "integral g" by simp
  with createSnowflake_in_range[OF assms(1)] have r: "in_range g" by simp
  have e: "int_of (epoch g) = e" using assms(2) by (simp add: int_of_def)
  from generate_n_ids[OF r assms(3)] assms(4,5) e obtain vs where
    vs: "ids = map BigInt_toString vs" "length vs = n" "sorted_wrt (<) vs"
      "\<forall>v\<in>set vs. v \<le> current_id g' \<and> (now k - e) * 4194304 \<le> v"
      "in_range g'" "epoch g' = epoch g"
    by auto
  have "current_id g' \<le> (lastTimestamp g' - e) * 4194304 + 4194303"
    using vs(5,6) e unfolding current_id_sum[OF vs(5)] in_range_def by simp
  with vs(4) have "\<forall>v\<in>set vs. (now k - e) * 4194304 \<le> v
                 \<and> v \<le> (lastTimestamp g' - e) * 4194304 + 4194303"
    by fastforce
  with vs(1,2,3) show ?thesis by blast
qed

lemma sorted_wrt_less_distinct: "sorted_wrt (<) (vs :: int list) \<Longrightarrow> distinct vs"
  by (induction vs) auto

lemma distinct_texts: "distinct vs \<Longrightarrow> distinct (map BigInt_toString vs)"
  by (simp add: distinct_map inj_on_def) (metis BigInt_toString_inj)

text \<open>
  C2 (as amended). On one generator, as constructed with the integer epoch \<open>e\<close>, any
  number \<open>n\<close> of calls in a row that all succeed return \<open>n\<close> pairwise distinct
  identifiers, provided that the clock readings of the run lie within 2^53 milliseconds
  of the epoch: the first reading is at least e - 2^53 and the last tick at most
  e + 2^53. Nothing bounds \<open>n\<close> or the number of calls within one millisecond, so runs
  that pass through the busy wait are included.
\<close>

theorem ids_distinct:
  assumes "createSnowflake config = Inr g" and "epoch g = Num e"
    and "generate_n now n (g, k) = Some (Inr ids, g', k')"
    and "e - 2 ^ 53 \<le> now k" and "lastTimestamp g' \<le> e + 2 ^ 53"
  shows "distinct ids \<and> length ids = n"
proof -
  from constructed_run[OF assms] obtain vs where
    "ids = map BigInt_toString vs" "length vs = n" "sorted_wrt (<) vs" by blast
  then show ?thesis
    by (simp add: sorted_wrt_less_distinct distinct_texts)
qed

lemma asUint64_less:
  assumes "0 \<le> a" "a < b" "b < 2 ^ 64"
  shows "asUint64 a < asUint64 b"
proof -
  have "uint (asUint64 a) = a" "uint (asUint64 b) = b"
    using assms by (simp_all add: asUint64_def uint_word_of_int take_bit_int_eq_self)
  with assms show ?thesis by (simp add: word_less_def)
qed

text \<open>
  C3 (as amended). On one generator, as constructed with the integer epoch \<open>e\<close>, the
  identifiers returned by calls in a row that all succeed are strictly increasing, as
  integers and read as unsigned 64-bit integers, provided that the epoch is not later
  than the first clock reading and the last tick is less than 2^42 milliseconds after
  the epoch.
\<close>

theorem ids_increasing:
  assumes "createSnowflake config = Inr g" and "epoch g = Num e"
    and "generate_n now n (g, k) = Some (Inr ids, g', k')"
    and "e \<le> now k" and "lastTimestamp g' < e + 2 ^ 42"
  shows "\<exists>vs. map BigInt ids = map Inr vs \<and> sorted_wrt (<) (map asUint64 vs)
           \<and> sorted_wrt (<) vs"
proof -
  from assms(4,5) have "e - 2 ^ 53 \<le> now k" "lastTimestamp g' \<le> e + 2 ^ 53" by simp_all
  from constructed_run[OF assms(1-3) this] obtain vs where
    vs: "ids = map BigInt_toString vs" "sorted_wrt (<) vs"
      "\<forall>v\<in>set vs. (now k - e) * 4194304 \<le> v
          \<and> v \<le> (lastTimestamp g' - e) * 4194304 + 4194303"
    by blast
  have "map BigInt ids = map Inr vs"
    unfolding vs(1) by (simp add: BigInt_toString_roundtrip)
  moreover have "sorted_wrt (<) (map asUint64 vs)"
  proof -
    have "(lastTimestamp g' - e) * 4194304 + 4194303 < 2 ^ 64"
      using assms(5) by simp
    moreover have "0 \<le> (now k - e) * 4194304" using assms(4) by simp
    ultimately have "\<forall>v\<in>set vs. 0 \<le> v \<and> v < 2 ^ 64" using vs(3) by fastforce
    then have "\<And>x y. x \<in> set vs \<Longrightarrow> y \<in> set vs \<Longrightarrow> x < y \<Longrightarrow> asUint64 x < asUint64 y"
      by (intro asUint64_less) simp_all
    with vs(2) show ?thesis
      unfolding sorted_wrt_map by (rule sorted_wrt_mono_rel[rotated])
  qed
  ultimately show ?thesis using vs(2) by blast
qed

section \<open>Long runs\<close>

lemma generate_n_add:
  "generate_n now (m + n) gk =
     (case generate_n now m gk of
        None \<Rightarrow> None
      | Some (Inl e, gk') \<Rightarrow> Some (Inl e, gk')
      | Some (Inr ids, gk') \<Rightarrow>
          (case generate_n now n gk' of
             None \<Rightarrow> None
           | Some (Inl e, gk'') \<Rightarrow> Some (Inl e, gk'')
           | Some (Inr ids', gk'') \<Rightarrow> Some (Inr (ids @ ids'), gk'')))"
proof (induction m arbitrary: gk)
  case 0
  show ?case by (auto split: option.splits sum.splits prod.splits)
next
  case (Suc m)
  show ?case
    by (auto simp add: Suc split: option.splits sum.splits prod.splits)
qed

lemma generate_n_one:
  "generate now gk = Some (Inr s, gk') \<Longrightarrow> generate_n now (Suc 0) gk = Some (Inr [s], gk')"
  by simp

lemma same_ms_run:
  assumes "epoch g = Num e" "datacenterId g = Num d" "workerId g = Num w"
    and "\<forall>i<n. now (k + i) = lastTimestamp g" "0 \<le> sequence g" "sequence g + int n \<le> 4095"
  shows "\<exists>ids. generate_n now n (g, k) =
           Some (Inr ids, g \<lparr> sequence := sequence g + int n \<rparr>, k + n)"
  using assms
proof (induction n arbitrary: g k)
  case 0
  then show ?case by simp
next
  case (Suc n)
  from Suc.prems(4) have here: "now k = lastTimestamp g" by force
  from Suc.prems(5,6) have m: "(sequence g + 1) mod 4096 = sequence g + 1" by simp
  with Suc.prems(5) have nz: "(sequence g + 1) mod 4096 \<noteq> 0" by simp
  let ?g1 = "g \<lparr> sequence := sequence g + 1 \<rparr>"
  from generate_same_ms[OF Suc.prems(1-3), of now k] here nz m obtain s where
    first: "generate now (g, k) = Some (Inr s, ?g1, Suc k)"
    by simp
  have "\<forall>i<n. now (Suc k + i) = lastTimestamp ?g1"
  proof (intro allI impI)
    fix i assume "i < n"
    then have "Suc i < Suc n" by simp
    with Suc.prems(4) have "now (k + Suc i) = lastTimestamp g" by blast
    then show "now (Suc k + i) = lastTimestamp ?g1" by simp
  qed
  moreover have "0 \<le> sequence ?g1" "sequence ?g1 + int n \<le> 4095"
    using Suc.prems(5,6) by simp_all
  moreover have "epoch ?g1 = Num e" "datacenterId ?g1 = Num d" "workerId ?g1 = Num w"
    using Suc.prems(1-3) by simp_all
  ultimately obtain ids where
    rest: "generate_n now n (?g1, Suc k) =
             Some (Inr ids, ?g1 \<lparr> sequence := sequence ?g1 + int n \<rparr>, Suc k + n)"
    using Suc.IH[of ?g1 "Suc k"] by blast
  from first rest show ?case by (simp add: add.assoc)
qed

lemma run_past_4096:
  "\<exists>ids. generate_n (slow_clock 5000) 4097
            (\<lparr> epoch = Num 0, datacenterId = Num 0, workerId = Num 0, lastTimestamp = - 1,
               sequence = 0 \<rparr>, 0)
          = Some (Inr ids,
              \<lparr> epoch = Num 0, datacenterId = Num 0, workerId = Num 0, lastTimestamp = 1,
                 sequence = 0 \<rparr>, 5001)"
proof -
  let ?now = "slow_clock 5000"
  let ?g = "\<lambda>l s. \<lparr> epoch = Num 0, datacenterId = Num 0, workerId = Num 0,
                      lastTimestamp = l, sequence = s \<rparr>"
  have c: "epoch (?g l s) = Num 0" "datacenterId (?g l s) = Num 0" "workerId (?g l s) = Num 0"
    for l s by simp_all
  have early: "?now i = 0" if "i < 5000" for i
    using that by (simp add: slow_clock_def)
  have late: "?now 5000 = 1"
    by (simp add: slow_clock_def)
  obtain s1 where "generate ?now (?g (- 1) 0, 0) = Some (Inr s1, ?g 0 0, Suc 0)"
    using generate_new_ms[OF c, of "- 1" 0 ?now 0] by (simp add: early)
  then have 1: "generate_n ?now (Suc 0) (?g (- 1) 0, 0) = Some (Inr [s1], ?g 0 0, Suc 0)"
    by (rule generate_n_one)
  obtain ids2 where
    2: "generate_n ?now 4095 (?g 0 0, Suc 0) = Some (Inr ids2, ?g 0 4095, 4096)"
    using same_ms_run[OF c, of 4095 ?now "Suc 0" 0 0] by (auto simp add: early)
  obtain s3 where "generate ?now (?g 0 4095, 4096) = Some (Inr s3, ?g 1 0, 5001)"
    using generate_exhausted[OF c, of ?now 4096 0 4095 5000] by (simp add: early late)
  then have 3: "generate_n ?now (Suc 0) (?g 0 4095, 4096) = Some (Inr [s3], ?g 1 0, 5001)"
    by (rule generate_n_one)
  have tail: "generate_n ?now (4095 + Suc 0) (?g 0 0, Suc 0)
          = Some (Inr (ids2 @ [s3]), ?g 1 0, 5001)"
    by (subst generate_n_add) (simp only: 2 3 option.case sum.case prod.case)
  have "generate_n ?now (Suc 0 + (4095 + Suc 0)) (?g (- 1) 0, 0)
          = Some (Inr ([s1] @ (ids2 @ [s3])), ?g 1 0, 5001)"
    by (subst generate_n_add) (simp only: 1 tail option.case sum.case prod.case)
  moreover have "Suc 0 + (4095 + Suc 0) = (4097::nat)" by simp
  ultimately show ?thesis by (simp only: exI)
qed

section \<open>Calls return under an advancing clock\<close>

text \<open>
  On a generator whose constants are integers, a call returns an identifier when the
  clock has not gone back and some later reading exceeds lastTimestamp; under a clock
  that never goes back and always advances again, every run of calls returns its
  identifiers.
\<close>

lemma generate_returns:
  assumes "epoch g = Num e" "datacenterId g = Num d" "workerId g = Num w"
    and "lastTimestamp g \<le> now k" and "\<exists>j>k. lastTimestamp g < now j"
  shows "\<exists>s g' k'. generate now (g, k) = Some (Inr s, g', k')"
proof (cases "lastTimestamp g < now k")
  case True
  have "generate now (g, k) =
          Some (Inr (BigInt_toString (encode (round_to_double (now k - e)) d w 0)),
                g \<lparr> sequence := 0, lastTimestamp := now k \<rparr>, Suc k)"
    using assms(1-3) True by (rule generate_new_ms)
  then show ?thesis by (intro exI)
next
  case False
  with assms(4) have here: "now k = lastTimestamp g" by simp
  show ?thesis
  proof (cases "(sequence g + 1) mod 4096 = 0")
    case False
    have "generate now (g, k) =
           Some (Inr (BigInt_toString (encode (round_to_double (now k - e)) d w
                        ((sequence g + 1) mod 4096))),
                 g \<lparr> sequence := (sequence g + 1) mod 4096, lastTimestamp := now k \<rparr>, Suc k)"
      using assms(1-3) here False by (rule generate_same_ms)
    then show ?thesis by (intro exI)
  next
    case True
    define j where "j = (LEAST j. k < j \<and> lastTimestamp g < now j)"
    from assms(5) have "\<exists>j. k < j \<and> lastTimestamp g < now j" by simp
    then have "k < j \<and> lastTimestamp g < now j"
      unfolding j_def by (rule LeastI_ex)
    moreover have "\<forall>i. k < i \<and> i < j \<longrightarrow> now i \<le> lastTimestamp g"
    proof (intro allI impI)
      fix i assume "k < i \<and> i < j"
      then have "i < (LEAST j. k < j \<and> lastTimestamp g < now j)"
        by (simp add: j_def)
      then have "\<not> (k < i \<and> lastTimestamp g < now i)"
        by (rule not_less_Least)
      with \<open>k < i \<and> i < j\<close> show "now i \<le> lastTimestamp g" by simp
    qed
    ultimately have "generate now (g, k) =
           Some (Inr (BigInt_toString (encode (round_to_double (now j - e)) d w 0)),
                 g \<lparr> sequence := 0, lastTimestamp := now j \<rparr>, Suc j)"
      using here True by (intro generate_exhausted assms(1-3)) simp_all
    then show ?thesis by (intro exI)
  qed
qed

lemma generate_n_returns:
  assumes "\<forall>i j. i \<le> j \<longrightarrow> now i \<le> now j" and "\<forall>i. \<exists>j>i. now i < now j"
    and "epoch g = Num e" "datacenterId g = Num d" "workerId g = Num w"
    and "lastTimestamp g \<le> now k"
  shows "\<exists>ids g' k'. generate_n now n (g, k) = Some (Inr ids, g', k')"
  using assms(3-)
proof (induction n arbitrary: g k)
  case 0
  show ?case by simp
next
  case (Suc n)
  from assms(2) obtain j where "k < j" "now k < now j" by blast
  with Suc.prems(4) have "\<exists>j>k. lastTimestamp g < now j" by force
  from generate_returns[OF Suc.prems this] obtain s g1 k1 where
    first: "generate now (g, k) = Some (Inr s, g1, k1)" by blast
  from generate_success[OF first] have
    "next_tick now (g, k) = Some (Inr (lastTimestamp g1), g1, k1)" by simp
  note f = next_tick_success[OF this]
  from f have "lastTimestamp g1 = now (k1 - 1)" by simp
  moreover from assms(1) have "now (k1 - 1) \<le> now k1" by simp
  ultimately have "lastTimestamp g1 \<le> now k1" by simp
  moreover from f Suc.prems(1-3)
  have "epoch g1 = Num e" "datacenterId g1 = Num d" "workerId g1 = Num w" by simp_all
  ultimately obtain ids g' k' where
    "generate_n now n (g1, k1) = Some (Inr ids, g', k')"
    using Suc.IH[of g1 k1] by blast
  with first show ?case by simp
qed

lemma ticking_clock_returns:
  assumes "epoch g = Num e" "datacenterId g = Num d" "workerId g = Num w"
    and "lastTimestamp g \<le> t0"
  shows "\<exists>ids g' k'. generate_n (ticking_clock t0) n (g, 0) = Some (Inr ids, g', k')"
proof (rule generate_n_returns[OF _ _ assms(1-3)])
  show "\<forall>i j. i \<le> j \<longrightarrow> ticking_clock t0 i \<le> ticking_clock t0 j"
    by (simp add: ticking_clock_def)
  show "\<forall>i. \<exists>j>i. ticking_clock t0 i < ticking_clock t0 j"
  proof
    fix i
    have "i < Suc i \<and> ticking_clock t0 i < ticking_clock t0 (Suc i)"
      by (simp add: ticking_clock_def)
    then show "\<exists>j>i. ticking_clock t0 i < ticking_clock t0 j" by (rule exI)
  qed
  show "lastTimestamp g \<le> ticking_clock t0 0"
    using assms(4) by (simp add: ticking_clock_def)
qed

section \<open>Concrete runs\<close>

lemmas eval_run = generate_def next_tick_def Let_def stalled_clock_def ticking_clock_def
  max_values Number_minus_def BigInt_of_number_def eval_text

lemmas eval_parse = parseSnowflakeId_def getSnowflakeTimestamp_def BigInt_def StringToBigInt_def
  trim_def is_StrWhiteSpaceChar_def NonDecimalIntegerLiteral_def SignedInteger_def
  parse_digits_def digit_value_def shifts max_values epoch_arg_def DEFAULT_EPOCH_def
  Date_new_def and_31 and_4095 drop_bit_eq_div Let_def Number_of_BigInt_def
  round_to_double_exact

lemma run_three_calls:
  "generate_n (stalled_clock 1577836800123 2) (Suc (Suc (Suc 0)))
     (\<lparr> epoch = Num 1577836800000, datacenterId = Num 5, workerId = Num 10,
        lastTimestamp = - 1, sequence = 0 \<rparr>, 0)
   = Some (Inr [''516595712'', ''516595713'', ''520790016''],
       \<lparr> epoch = Num 1577836800000, datacenterId = Num 5, workerId = Num 10,
          lastTimestamp = 1577836800124, sequence = 0 \<rparr>, 3)"
  by (simp add: eval_run)

lemma config_5_10:
  "createSnowflake [''datacenterId'' \<mapsto> Value (Num 5), ''workerId'' \<mapsto> Value (Num 10)] =
     Inr \<lparr> epoch = Num 1577836800000, datacenterId = Num 5, workerId = Num 10,
           lastTimestamp = - 1, sequence = 0 \<rparr>"
  by (simp add: createSnowflake_cases destructure_def DEFAULT_EPOCH_def Number_less_def)

lemma config_epoch_0:
  "createSnowflake [''epoch'' \<mapsto> Value (Num 0)] =
     Inr \<lparr> epoch = Num 0, datacenterId = Num 0, workerId = Num 0, lastTimestamp = - 1,
           sequence = 0 \<rparr>"
  by (simp add: createSnowflake_cases destructure_def Number_less_def Let_def)

text \<open>
  The witness of C2: three calls of which two fall in one millisecond, and 4097 calls of
  which 4096 fall in one millisecond, so that the last one waits for the next.
\<close>

theorem ids_distinct_witness:
  "createSnowflake [''datacenterId'' \<mapsto> Value (Num 5), ''workerId'' \<mapsto> Value (Num 10)] =
     Inr \<lparr> epoch = Num 1577836800000, datacenterId = Num 5, workerId = Num 10,
           lastTimestamp = - 1, sequence = 0 \<rparr>
   \<and> generate_n (stalled_clock 1577836800123 2) (Suc (Suc (Suc 0)))
       (\<lparr> epoch = Num 1577836800000, datacenterId = Num 5, workerId = Num 10,
          lastTimestamp = - 1, sequence = 0 \<rparr>, 0)
     = Some (Inr [''516595712'', ''516595713'', ''520790016''],
         \<lparr> epoch = Num 1577836800000, datacenterId = Num 5, workerId = Num 10,
            lastTimestamp = 1577836800124, sequence = 0 \<rparr>, 3)
   \<and> (1577836800000::int) - 2 ^ 53 \<le> stalled_clock 1577836800123 2 0
   \<and> (1577836800124::int) \<le> 1577836800000 + 2 ^ 53
   \<and> distinct [''516595712'', ''516595713'', ''520790016'']
   \<and> length [''516595712'', ''516595713'', ''520790016''] = Suc (Suc (Suc 0))
   \<and> createSnowflake [''epoch'' \<mapsto> Value (Num 0)] =
     Inr \<lparr> epoch = Num 0, datacenterId = Num 0, workerId = Num 0, lastTimestamp = - 1,
           sequence = 0 \<rparr>
   \<and> (\<exists>ids. generate_n (slow_clock 5000) 4097
              (\<lparr> epoch = Num 0, datacenterId = Num 0, workerId = Num 0, lastTimestamp = - 1,
                 sequence = 0 \<rparr>, 0)
            = Some (Inr ids,
                \<lparr> epoch = Num 0, datacenterId = Num 0, workerId = Num 0, lastTimestamp = 1,
                   sequence = 0 \<rparr>, 5001)
          \<and> distinct ids \<and> length ids = 4097)"
proof -
  let ?g = "\<lparr> epoch = Num 1577836800000, datacenterId = Num 5, workerId = Num 10,
              lastTimestamp = - 1, sequence = 0 \<rparr>"
  let ?g' = "\<lparr> epoch = Num 1577836800000, datacenterId = Num 5, workerId = Num 10,
               lastTimestamp = 1577836800124, sequence = 0 \<rparr>"
  let ?h = "\<lparr> epoch = Num 0, datacenterId = Num 0, workerId = Num 0, lastTimestamp = - 1,
              sequence = 0 \<rparr>"
  let ?h' = "\<lparr> epoch = Num 0, datacenterId = Num 0, workerId = Num 0, lastTimestamp = 1,
               sequence = 0 \<rparr>"
  have e: "epoch ?g = Num 1577836800000" by simp
  have lo: "(1577836800000::int) - 2 ^ 53 \<le> stalled_clock 1577836800123 2 0"
    by (simp add: stalled_clock_def)
  have hi: "(1577836800124::int) \<le> 1577836800000 + 2 ^ 53" by simp
  then have hi': "lastTimestamp ?g' \<le> 1577836800000 + 2 ^ 53" by simp
  note r = ids_distinct [OF config_5_10 e run_three_calls lo hi']
  from r have 1: "distinct [''516595712'', ''516595713'', ''520790016'']"
    by (rule conjunct1)
  from r have 2: "length [''516595712'', ''516595713'', ''520790016''] = Suc (Suc (Suc 0))"
    by (rule conjunct2)
  from run_past_4096 obtain ids where
    long: "generate_n (slow_clock 5000) 4097 (?h, 0) = Some (Inr ids, ?h', 5001)" ..
  have e0: "epoch ?h = Num 0" by simp
  have lo0: "(0::int) - 2 ^ 53 \<le> slow_clock 5000 0" by (simp add: slow_clock_def)
  have hi0: "lastTimestamp ?h' \<le> 0 + 2 ^ 53" by simp
  from ids_distinct [OF config_epoch_0 e0 long lo0 hi0] long
  have 3: "\<exists>ids. generate_n (slow_clock 5000) 4097 (?h, 0) = Some (Inr ids, ?h', 5001)
          \<and> distinct ids \<and> length ids = 4097"
    by blast
  show ?thesis by (intro conjI config_5_10 run_three_calls lo hi 1 2 config_epoch_0 3)
qed

lemma config_epoch_low:
  "createSnowflake [''epoch'' \<mapsto> Value (Num (- 9007199254740992))] =
     Inr \<lparr> epoch = Num (- 9007199254740992), datacenterId = Num 0, workerId = Num 0,
           lastTimestamp = - 1, sequence = 0 \<rparr>"
  by (simp add: createSnowflake_cases destructure_def Number_less_def Let_def)

lemma run_epoch_low:
  "generate_n (ticking_clock 0) (Suc (Suc 0))
       (\<lparr> epoch = Num (- 9007199254740992), datacenterId = Num 0, workerId = Num 0,
          lastTimestamp = - 1, sequence = 0 \<rparr>, 0)
     = Some (Inr [''37778931862957161709568'', ''37778931862957161709568''],
         \<lparr> epoch = Num (- 9007199254740992), datacenterId = Num 0, workerId = Num 0,
            lastTimestamp = 1, sequence = 0 \<rparr>, 2)"
  by (simp add: eval_run round_2_53_plus_1)

text \<open>
  C2 as stated, for every accepted configuration and every clock, fails: with the epoch
  at -2^53 the readings 0 and 1 give the differences 2^53 and 2^53 + 1, which are the
  same double, and two calls that both succeed return the same identifier.
\<close>

theorem ids_distinct_counterexample:
  "createSnowflake [''epoch'' \<mapsto> Value (Num (- 9007199254740992))] =
     Inr \<lparr> epoch = Num (- 9007199254740992), datacenterId = Num 0, workerId = Num 0,
           lastTimestamp = - 1, sequence = 0 \<rparr>
   \<and> generate_n (ticking_clock 0) (Suc (Suc 0))
       (\<lparr> epoch = Num (- 9007199254740992), datacenterId = Num 0, workerId = Num 0,
          lastTimestamp = - 1, sequence = 0 \<rparr>, 0)
     = Some (Inr [''37778931862957161709568'', ''37778931862957161709568''],
         \<lparr> epoch = Num (- 9007199254740992), datacenterId = Num 0, workerId = Num 0,
            lastTimestamp = 1, sequence = 0 \<rparr>, 2)
   \<and> \<not> distinct [''37778931862957161709568'', ''37778931862957161709568'']"
proof (intro conjI config_epoch_low run_epoch_low)
  show "\<not> distinct [''37778931862957161709568'', ''37778931862957161709568'']"
    by (simp only: distinct.simps list.set insert_iff simp_thms)
qed

theorem ids_increasing_witness:
  "createSnowflake [''datacenterId'' \<mapsto> Value (Num 5), ''workerId'' \<mapsto> Value (Num 10)] =
     Inr \<lparr> epoch = Num 1577836800000, datacenterId = Num 5, workerId = Num 10,
           lastTimestamp = - 1, sequence = 0 \<rparr>
   \<and> generate_n (stalled_clock 1577836800123 2) (Suc (Suc (Suc 0)))
       (\<lparr> epoch = Num 1577836800000, datacenterId = Num 5, workerId = Num 10,
          lastTimestamp = - 1, sequence = 0 \<rparr>, 0)
     = Some (Inr [''516595712'', ''516595713'', ''520790016''],
         \<lparr> epoch = Num 1577836800000, datacenterId = Num 5, workerId = Num 10,
            lastTimestamp = 1577836800124, sequence = 0 \<rparr>, 3)
   \<and> (1577836800000::int) \<le> stalled_clock 1577836800123 2 0
   \<and> (1577836800124::int) < 1577836800000 + 2 ^ 42
   \<and> map BigInt [''516595712'', ''516595713'', ''520790016'']
       = map Inr [516595712, 516595713, 520790016]
   \<and> sorted_wrt (<) [516595712, 516595713, 520790016 :: int]
   \<and> sorted_wrt (<) (map asUint64 [516595712, 516595713, 520790016])"
proof -
  let ?g = "\<lparr> epoch = Num 1577836800000, datacenterId = Num 5, workerId = Num 10,
              lastTimestamp = - 1, sequence = 0 \<rparr>"
  let ?g' = "\<lparr> epoch = Num 1577836800000, datacenterId = Num 5, workerId = Num 10,
               lastTimestamp = 1577836800124, sequence = 0 \<rparr>"
  have texts: "map BigInt [''516595712'', ''516595713'', ''520790016'']
                 = map Inr [516595712, 516595713, 520790016]"
    by (simp add: eval_parse)
  have e: "epoch ?g = Num 1577836800000" by simp
  have lo: "(1577836800000::int) \<le> stalled_clock 1577836800123 2 0"
    by (simp add: stalled_clock_def)
  have hi: "(1577836800124::int) < 1577836800000 + 2 ^ 42" by simp
  then have hi': "lastTimestamp ?g' < 1577836800000 + 2 ^ 42" by simp
  from ids_increasing [OF config_5_10 e run_three_calls lo hi'] obtain vs where
    a: "map BigInt [''516595712'', ''516595713'', ''520790016''] = map Inr vs"
    and b: "sorted_wrt (<) (map asUint64 vs)"
    and c: "sorted_wrt (<) vs"
    by (elim exE conjE)
  from a texts have "map Inr vs = (map Inr [516595712, 516595713, 520790016] :: (error + int) list)"
    by simp
  then have "vs = [516595712, 516595713, 520790016]"
    by (auto simp add: map_eq_Cons_conv)
  with b c show ?thesis
    by (intro conjI config_5_10 run_three_calls texts lo hi) simp_all
qed

lemma config_epoch_1001:
  "createSnowflake [''epoch'' \<mapsto> Value (Num 1001)] =
     Inr \<lparr> epoch = Num 1001, datacenterId = Num 0, workerId = Num 0, lastTimestamp = - 1,
           sequence = 0 \<rparr>"
  by (simp add: createSnowflake_cases destructure_def Number_less_def Let_def)

lemma run_across_epoch:
  "generate_n (ticking_clock 1000) (Suc (Suc 0))
       (\<lparr> epoch = Num 1001, datacenterId = Num 0, workerId = Num 0, lastTimestamp = - 1,
          sequence = 0 \<rparr>, 0)
     = Some (Inr [''-4194304'', ''0''],
         \<lparr> epoch = Num 1001, datacenterId = Num 0, workerId = Num 0, lastTimestamp = 1001,
            sequence = 0 \<rparr>, 2)"
  by (simp add: eval_run)

lemma texts_across_epoch: "BigInt ''-4194304'' = Inr (- 4194304)" "BigInt ''0'' = Inr 0"
  by (simp_all add: eval_parse)

lemma not_le_uint64: "\<not> asUint64 (- 4194304) \<le> asUint64 0"
  by (simp add: asUint64_def)

lemma run_past_42_bits:
  "generate_n (ticking_clock 4398046511103) (Suc (Suc 0))
       (\<lparr> epoch = Num 0, datacenterId = Num 0, workerId = Num 0, lastTimestamp = - 1,
          sequence = 0 \<rparr>, 0)
     = Some (Inr [''18446744073705357312'', ''18446744073709551616''],
         \<lparr> epoch = Num 0, datacenterId = Num 0, workerId = Num 0,
            lastTimestamp = 4398046511104, sequence = 0 \<rparr>, 2)"
  by (simp add: eval_run)

lemma texts_past_42_bits:
  "BigInt ''18446744073705357312'' = Inr 18446744073705357312"
  "BigInt ''18446744073709551616'' = Inr 18446744073709551616"
  by (simp_all add: eval_parse)

lemma not_le_uint64_wrap: "\<not> asUint64 18446744073705357312 \<le> asUint64 18446744073709551616"
  by (simp add: asUint64_def)

text \<open>
  C3 as stated fails: with the epoch one millisecond after the first clock reading, two
  calls return -4194304 and then 0, and as unsigned 64-bit integers the first is the
  greater one. The upper bound is needed as well: with the epoch 0 and the readings
  2^42 - 1 and 2^42, two calls return (2^42 - 1) * 2^22 and then 2^64, which as an
  unsigned 64-bit integer is 0.
\<close>

theorem ids_increasing_counterexample:
  "createSnowflake [''epoch'' \<mapsto> Value (Num 1001)] =
     Inr \<lparr> epoch = Num 1001, datacenterId = Num 0, workerId = Num 0, lastTimestamp = - 1,
           sequence = 0 \<rparr>
   \<and> generate_n (ticking_clock 1000) (Suc (Suc 0))
       (\<lparr> epoch = Num 1001, datacenterId = Num 0, workerId = Num 0, lastTimestamp = - 1,
          sequence = 0 \<rparr>, 0)
     = Some (Inr [''-4194304'', ''0''],
         \<lparr> epoch = Num 1001, datacenterId = Num 0, workerId = Num 0, lastTimestamp = 1001,
            sequence = 0 \<rparr>, 2)
   \<and> BigInt ''-4194304'' = Inr (- 4194304) \<and> BigInt ''0'' = Inr 0
   \<and> \<not> asUint64 (- 4194304) \<le> asUint64 0
   \<and> createSnowflake [''epoch'' \<mapsto> Value (Num 0)] =
     Inr \<lparr> epoch = Num 0, datacenterId = Num 0, workerId = Num 0, lastTimestamp = - 1,
           sequence = 0 \<rparr>
   \<and> generate_n (ticking_clock 4398046511103) (Suc (Suc 0))
       (\<lparr> epoch = Num 0, datacenterId = Num 0, workerId = Num 0, lastTimestamp = - 1,
          sequence = 0 \<rparr>, 0)
     = Some (Inr [''18446744073705357312'', ''18446744073709551616''],
         \<lparr> epoch = Num 0, datacenterId = Num 0, workerId = Num 0,
            lastTimestamp = 4398046511104, sequence = 0 \<rparr>, 2)
   \<and> BigInt ''18446744073705357312'' = Inr 18446744073705357312
   \<and> BigInt ''18446744073709551616'' = Inr 18446744073709551616
   \<and> \<not> asUint64 18446744073705357312 \<le> asUint64 18446744073709551616"
  by (intro conjI config_epoch_1001 run_across_epoch texts_across_epoch not_le_uint64
      config_epoch_0 run_past_42_bits texts_past_42_bits not_le_uint64_wrap)

section \<open>The timestamp offset\<close>

lemma timestampOffset_success:
  assumes "next_tick now (g, k) = Some (Inr ts, g', k')" and "epoch g = Num e"
  shows "timestampOffset now (g, k) = Some (Num (round_to_double (ts - e)))"
  using assms next_tick_success[OF assms(1)] by (simp add: timestampOffset_def Number_minus_def)

lemma round_to_double_below:
  assumes "i < 2 ^ 41"
  shows "round_to_double i < 2 ^ 41"
proof (cases "0 \<le> i")
  case True
  with assms have "round_to_double i = i" by (intro round_to_double_exact) simp
  with assms show ?thesis by simp
next
  case False
  then have "round_to_double i \<le> 0" by (intro round_to_double_sign) simp
  then show ?thesis by simp
qed

text \<open>
  C7 (as amended). In every successful call, on a generator with the integer epoch \<open>e\<close>,
  the timestamp offset that is packed is the double nearest to the accepted tick minus
  the epoch, where the tick is the last clock reading of the call and is not earlier
  than its first reading; it is the exact difference when that has magnitude at most
  2^53. The offset is non-negative when the epoch is not later than the first reading of
  the call, and fits in 41 bits when the clock stays below epoch + 2^41.
\<close>

theorem offset_is_tick_minus_epoch:
  assumes "generate now (g, k) = Some (Inr s, g', k')" and "epoch g = Num e"
  shows "timestampOffset now (g, k) = Some (Num (round_to_double (lastTimestamp g' - e)))
         \<and> lastTimestamp g' = now (k' - 1) \<and> now k \<le> lastTimestamp g'
         \<and> (\<exists>d w. datacenterId g = Num d \<and> workerId g = Num w
              \<and> s = BigInt_toString (encode (round_to_double (lastTimestamp g' - e)) d w
                                       (sequence g')))
         \<and> (\<bar>lastTimestamp g' - e\<bar> \<le> 2 ^ 53
              \<longrightarrow> timestampOffset now (g, k) = Some (Num (lastTimestamp g' - e)))
         \<and> (e \<le> now k \<longrightarrow> 0 \<le> round_to_double (lastTimestamp g' - e))
         \<and> ((\<forall>j. now j < e + 2 ^ 41) \<longrightarrow> round_to_double (lastTimestamp g' - e) < 2 ^ 41)"
proof -
  from generate_success[OF assms(1)]
  have nt: "next_tick now (g, k) = Some (Inr (lastTimestamp g'), g', k')"
    and i: "integral g'"
    and s: "s = BigInt_toString
                 (encode (round_to_double (lastTimestamp g' - int_of (epoch g')))
                    (int_of (datacenterId g')) (int_of (workerId g')) (sequence g'))"
    by simp_all
  note f = next_tick_success[OF nt]
  have 1: "timestampOffset now (g, k) = Some (Num (round_to_double (lastTimestamp g' - e)))"
    by (rule timestampOffset_success[OF nt assms(2)])
  have 2: "lastTimestamp g' = now (k' - 1)" "now k \<le> lastTimestamp g'" using f by simp_all
  from i f obtain d w where dw: "datacenterId g = Num d" "workerId g = Num w"
    by (cases "datacenterId g"; cases "workerId g") (auto simp add: integral_def)
  with s f assms(2)
  have "s = BigInt_toString (encode (round_to_double (lastTimestamp g' - e)) d w
                               (sequence g'))"
    by (simp add: int_of_def)
  with dw have 3: "\<exists>d w. datacenterId g = Num d \<and> workerId g = Num w
              \<and> s = BigInt_toString (encode (round_to_double (lastTimestamp g' - e)) d w
                                       (sequence g'))"
    by blast
  have 4: "\<bar>lastTimestamp g' - e\<bar> \<le> 2 ^ 53
              \<longrightarrow> timestampOffset now (g, k) = Some (Num (lastTimestamp g' - e))"
    using 1 by (simp add: round_to_double_exact)
  have 5: "e \<le> now k \<longrightarrow> 0 \<le> round_to_double (lastTimestamp g' - e)"
    using 2 by (auto intro: round_to_double_sign)
  have 6: "(\<forall>j. now j < e + 2 ^ 41) \<longrightarrow> round_to_double (lastTimestamp g' - e) < 2 ^ 41"
  proof
    assume "\<forall>j. now j < e + 2 ^ 41"
    then have "now (k' - 1) < e + 2 ^ 41" by (rule spec)
    with 2 have "lastTimestamp g' - e < 2 ^ 41" by simp
    then show "round_to_double (lastTimestamp g' - e) < 2 ^ 41"
      by (rule round_to_double_below)
  qed
  from 1 2 3 4 5 6 show ?thesis by blast
qed

lemma first_call_5_10:
  "generate (stalled_clock 1577836800123 2)
     (\<lparr> epoch = Num 1577836800000, datacenterId = Num 5, workerId = Num 10,
        lastTimestamp = - 1, sequence = 0 \<rparr>, 0)
   = Some (Inr ''516595712'',
       \<lparr> epoch = Num 1577836800000, datacenterId = Num 5, workerId = Num 10,
          lastTimestamp = 1577836800123, sequence = 0 \<rparr>, 1)"
  by (simp add: eval_run)

theorem offset_is_tick_minus_epoch_witness:
  "generate (stalled_clock 1577836800123 2)
     (\<lparr> epoch = Num 1577836800000, datacenterId = Num 5, workerId = Num 10,
        lastTimestamp = - 1, sequence = 0 \<rparr>, 0)
   = Some (Inr ''516595712'',
       \<lparr> epoch = Num 1577836800000, datacenterId = Num 5, workerId = Num 10,
          lastTimestamp = 1577836800123, sequence = 0 \<rparr>, 1)
   \<and> timestampOffset (stalled_clock 1577836800123 2)
       (\<lparr> epoch = Num 1577836800000, datacenterId = Num 5, workerId = Num 10,
          lastTimestamp = - 1, sequence = 0 \<rparr>, 0) = Some (Num 123)
   \<and> (0::int) \<le> 123 \<and> (123::int) < 2 ^ 41"
proof -
  let ?g = "\<lparr> epoch = Num 1577836800000, datacenterId = Num 5, workerId = Num 10,
              lastTimestamp = - 1, sequence = 0 \<rparr>"
  have e: "epoch ?g = Num 1577836800000" by simp
  have a: "(1577836800000::int) \<le> stalled_clock 1577836800123 2 0"
    and b: "\<forall>j. stalled_clock 1577836800123 2 j < 1577836800000 + 2 ^ 41"
    by (simp_all add: stalled_clock_def)
  from offset_is_tick_minus_epoch [OF first_call_5_10 e] a b
  have "timestampOffset (stalled_clock 1577836800123 2) (?g, 0) = Some (Num 123)
        \<and> (0::int) \<le> 123 \<and> (123::int) < 2 ^ 41"
    by (simp add: round_to_double_exact)
  with first_call_5_10 show ?thesis by (intro conjI) simp_all
qed

text \<open>
  C7 as stated fails: construction accepts an epoch (2000) later than the clock (1000),
  the call succeeds, and the offset it packs is -1000.
\<close>

theorem offset_range_counterexample:
  "createSnowflake [''epoch'' \<mapsto> Value (Num 2000)] =
     Inr \<lparr> epoch = Num 2000, datacenterId = Num 0, workerId = Num 0, lastTimestamp = - 1,
           sequence = 0 \<rparr>
   \<and> generate (ticking_clock 1000)
       (\<lparr> epoch = Num 2000, datacenterId = Num 0, workerId = Num 0, lastTimestamp = - 1,
          sequence = 0 \<rparr>, 0)
     = Some (Inr ''-4194304000'',
         \<lparr> epoch = Num 2000, datacenterId = Num 0, workerId = Num 0, lastTimestamp = 1000,
            sequence = 0 \<rparr>, 1)
   \<and> timestampOffset (ticking_clock 1000)
       (\<lparr> epoch = Num 2000, datacenterId = Num 0, workerId = Num 0, lastTimestamp = - 1,
          sequence = 0 \<rparr>, 0)
     = Some (Num (- 1000))
   \<and> \<not> (0::int) \<le> - 1000"
proof -
  let ?g = "\<lambda>l. \<lparr> epoch = Num 2000, datacenterId = Num 0, workerId = Num 0,
                    lastTimestamp = l, sequence = 0 \<rparr>"
  have 1: "createSnowflake [''epoch'' \<mapsto> Value (Num 2000)] = Inr (?g (- 1))"
    by (simp add: createSnowflake_cases destructure_def Number_less_def Let_def)
  have 2: "generate (ticking_clock 1000) (?g (- 1), 0)
             = Some (Inr ''-4194304000'', ?g 1000, 1)"
    by (simp add: eval_run)
  have 3: "timestampOffset (ticking_clock 1000) (?g (- 1), 0) = Some (Num (- 1000))"
    by (simp add: timestampOffset_def next_tick_def Let_def ticking_clock_def
        Number_minus_def round_to_double_exact)
  show ?thesis by (intro conjI 1 2 3) simp
qed

section \<open>One-shot generation\<close>

lemma createSnowflake_fresh:
  "createSnowflake config = Inr g \<Longrightarrow> lastTimestamp g = - 1 \<and> sequence g = 0"
  unfolding createSnowflake_cases Let_def by (auto split: if_splits)

lemma fresh_next_tick:
  assumes "lastTimestamp g = - 1" "sequence g = 0"
  shows "next_tick now (g, k) =
           Some (if now k < - 1 then
                   (Inl (Error ''Clock moved backwards. Refusing to generate id''), g, Suc k)
                 else if now k = - 1 then
                   (Inr (- 1), g \<lparr> sequence := 1, lastTimestamp := - 1 \<rparr>, Suc k)
                 else
                   (Inr (now k), g \<lparr> sequence := 0, lastTimestamp := now k \<rparr>, Suc k))"
  using assms by (simp add: next_tick_def Let_def max_values and_4095)

lemma generate_by_tick:
  assumes "next_tick now (g, k1) = Some (r, g', k1')"
    and "next_tick now (g, k2) = Some (r, g', k2')"
  shows "map_option fst (generate now (g, k1)) = map_option fst (generate now (g, k2))"
  using assms by (cases r) (simp_all add: generate_def split: sum.splits)

lemma one_shot_text:
  "map_option fst (generateSnowflakeId now config k) =
     (case createSnowflake config of
        Inl e \<Rightarrow> Some (Inl e)
      | Inr g \<Rightarrow> map_option fst (generate now (g, k)))"
  by (cases "createSnowflake config")
     (auto simp add: generateSnowflakeId_def split: option.splits prod.splits)

lemma one_shot_same_reading:
  assumes "now k1 = now k2"
  shows "map_option fst (generateSnowflakeId now config k1) =
         map_option fst (generateSnowflakeId now config k2)"
proof (cases "createSnowflake config")
  case (Inl e)
  then show ?thesis by (simp add: one_shot_text)
next
  case (Inr g)
  from createSnowflake_fresh[OF Inr] have fresh: "lastTimestamp g = - 1" "sequence g = 0"
    by simp_all
  obtain r g' where 1: "next_tick now (g, k1) = Some (r, g', Suc k1)"
    using fresh_next_tick[OF fresh, of now k1] by (simp split: if_splits)
  with assms have 2: "next_tick now (g, k2) = Some (r, g', Suc k2)"
    using fresh_next_tick[OF fresh, of now k1] fresh_next_tick[OF fresh, of now k2]
    by (simp split: if_splits)
  from generate_by_tick[OF 1 2] Inr show ?thesis by (simp add: one_shot_text)
qed

lemma one_shot_new_ms:
  assumes "createSnowflake config = Inr g" "0 \<le> now k"
    and "generateSnowflakeId now config k = Some (Inr s, k')"
  shows "\<exists>e d w. epoch g = Num e \<and> datacenterId g = Num d \<and> workerId g = Num w
           \<and> 0 \<le> d \<and> d \<le> 31 \<and> 0 \<le> w \<and> w \<le> 31
           \<and> s = BigInt_toString (encode (round_to_double (now k - e)) d w 0)
           \<and> k' = Suc k"
proof -
  from assms(1,3) obtain g' where gen: "generate now (g, k) = Some (Inr s, g', k')"
    by (auto simp add: generateSnowflakeId_def split: option.splits)
  from generate_success[OF gen] have i: "integral g" by simp
  from createSnowflake_in_range[OF assms(1) i]
  have r: "in_range g" and fresh: "lastTimestamp g = - 1" by simp_all
  from i obtain e d w where c: "epoch g = Num e" "datacenterId g = Num d" "workerId g = Num w"
    by (cases "epoch g"; cases "datacenterId g"; cases "workerId g")
      (auto simp add: integral_def)
  from fresh assms(2) have "lastTimestamp g < now k" by simp
  from generate_new_ms[OF c, of now k] this gen
  have "s = BigInt_toString (encode (round_to_double (now k - e)) d w 0)" "k' = Suc k"
    by simp_all
  moreover from r c have "0 \<le> d" "d \<le> 31" "0 \<le> w" "w \<le> 31"
    by (simp_all add: in_range_def int_of_def)
  ultimately show ?thesis using c by blast
qed

text \<open>
  C10. A one-shot \<open>generateSnowflakeId\<close> call that succeeds, at a clock reading that is a
  non-negative number of milliseconds, returns the text of the identifier packed with
  sequence 0, after one clock reading, and that text decodes to sequence field 0. Two
  one-shot calls with the same configuration and the same clock reading return the same
  result.
\<close>

theorem one_shot_sequence:
  "(createSnowflake config = Inr g \<and> 0 \<le> now k
      \<and> generateSnowflakeId now config k = Some (Inr s, k') \<longrightarrow>
        (\<exists>e d w. epoch g = Num e \<and> datacenterId g = Num d \<and> workerId g = Num w
           \<and> s = BigInt_toString (encode (round_to_double (now k - e)) d w 0))
        \<and> k' = Suc k
        \<and> (\<exists>c. parseSnowflakeId s e' = Inr c \<and> components.sequence c = 0))
   \<and> (now k1 = now k2 \<longrightarrow>
         map_option fst (generateSnowflakeId now config k1) =
         map_option fst (generateSnowflakeId now config k2))"
proof -
  have 1: "(\<exists>e d w. epoch g = Num e \<and> datacenterId g = Num d \<and> workerId g = Num w
           \<and> s = BigInt_toString (encode (round_to_double (now k - e)) d w 0))
        \<and> k' = Suc k
        \<and> (\<exists>c. parseSnowflakeId s e' = Inr c \<and> components.sequence c = 0)"
    if h: "createSnowflake config = Inr g \<and> 0 \<le> now k
      \<and> generateSnowflakeId now config k = Some (Inr s, k')"
  proof -
    from h one_shot_new_ms[of config g now k s k'] obtain e d w where
      c: "epoch g = Num e" "datacenterId g = Num d" "workerId g = Num w"
      and r: "0 \<le> d" "d \<le> 31" "0 \<le> w" "w \<le> 31"
      and s: "s = BigInt_toString (encode (round_to_double (now k - e)) d w 0)"
      and k': "k' = Suc k"
      by blast
    have "\<exists>c. parseSnowflakeId s e' = Inr c \<and> components.sequence c = 0"
      unfolding s using parse_encode[OF r, of 0 "round_to_double (now k - e)" e'] by simp
    with c s k' show ?thesis by blast
  qed
  have 2: "map_option fst (generateSnowflakeId now config k1) =
         map_option fst (generateSnowflakeId now config k2)" if "now k1 = now k2"
    using that by (rule one_shot_same_reading)
  from 1 2 show ?thesis by blast
qed

lemma config_default:
  "createSnowflake Map.empty =
     Inr \<lparr> epoch = Num 1577836800000, datacenterId = Num 0, workerId = Num 0,
           lastTimestamp = - 1, sequence = 0 \<rparr>"
  by (simp add: createSnowflake_cases destructure_def DEFAULT_EPOCH_def Number_less_def
      Let_def)

lemma one_shot_run:
  "generateSnowflakeId (stalled_clock 1577836800123 2) Map.empty 0 = Some (Inr ''515899392'', 1)"
  "generateSnowflakeId (stalled_clock 1577836800123 2) Map.empty 1 = Some (Inr ''515899392'', 2)"
  by (simp_all add: generateSnowflakeId_def config_default eval_run)

theorem one_shot_sequence_witness:
  "generateSnowflakeId (stalled_clock 1577836800123 2) Map.empty 0 = Some (Inr ''515899392'', 1)
   \<and> generateSnowflakeId (stalled_clock 1577836800123 2) Map.empty 1
       = Some (Inr ''515899392'', 2)
   \<and> 0 \<le> stalled_clock 1577836800123 2 0
   \<and> stalled_clock 1577836800123 2 0 = stalled_clock 1577836800123 2 1
   \<and> (\<exists>c. parseSnowflakeId ''515899392'' None = Inr c \<and> components.sequence c = 0)"
proof -
  have a: "0 \<le> stalled_clock 1577836800123 2 0"
    and b: "stalled_clock 1577836800123 2 0 = stalled_clock 1577836800123 2 1"
    by (simp_all add: stalled_clock_def)
  from one_shot_sequence [where config = Map.empty
      and g = "\<lparr> epoch = Num 1577836800000, datacenterId = Num 0, workerId = Num 0,
                 lastTimestamp = - 1, sequence = 0 \<rparr>"
      and now = "stalled_clock 1577836800123 2" and k = 0 and s = "''515899392''"
      and k' = 1 and e' = None and ?k1.0 = 0 and ?k2.0 = 1]
  have "\<exists>c. parseSnowflakeId ''515899392'' None = Inr c \<and> components.sequence c = 0"
    using config_default one_shot_run(1) a by blast
  with one_shot_run a b show ?thesis by (intro conjI) simp_all
qed

section \<open>Malformed identifiers\<close>

lemma digits_value_defined:
  "digits_value radix s acc = None \<longleftrightarrow> \<not> list_all (digit_below radix) s"
  by (induction s arbitrary: acc) (auto simp add: digit_below_def split: option.splits)

lemma parse_digits_defined: "parse_digits radix s = None \<longleftrightarrow> \<not> is_run (digit_below radix) s"
  by (simp add: parse_digits_def is_run_def digits_value_defined)

lemma digit_below_10: "digit_below 10 = is_digit"
  by (rule ext) (auto simp add: digit_below_def digit_value_def is_digit_def Let_def)

lemma digit_below_16: "digit_below 16 = is_hex_digit"
  by (rule ext) (auto simp add: digit_below_def digit_value_def is_hex_digit_def is_digit_def Let_def)

lemma digit_below_8: "digit_below 8 = is_octal_digit"
  by (rule ext) (auto simp add: digit_below_def digit_value_def is_octal_digit_def Let_def)

lemma digit_below_2: "digit_below 2 = is_binary_digit"
  by (rule ext) (auto simp add: digit_below_def digit_value_def is_binary_digit_def Let_def)

lemmas parse_digits_none =
  parse_digits_defined[of 10, unfolded digit_below_10]
  parse_digits_defined[of 16, unfolded digit_below_16]
  parse_digits_defined[of 8, unfolded digit_below_8]
  parse_digits_defined[of 2, unfolded digit_below_2]

lemma sign_not_digit: "\<not> is_digit CHR ''+''" "\<not> is_digit CHR ''-''"
  by (simp_all add: is_digit_def)

lemma letter_not_digit:
  "c = CHR ''x'' \<or> c = CHR ''X'' \<or> c = CHR ''o'' \<or> c = CHR ''O'' \<or> c = CHR ''b'' \<or> c = CHR ''B''
     \<Longrightarrow> \<not> is_digit c"
  by (auto simp add: is_digit_def)

lemma SignedInteger_none:
  "SignedInteger s = None \<longleftrightarrow>
     \<not> (is_run is_digit s
        \<or> (case s of c # ds \<Rightarrow> (c = CHR ''+'' \<or> c = CHR ''-'') \<and> is_run is_digit ds
            | [] \<Rightarrow> False))"
proof (cases s)
  case Nil
  then show ?thesis by (simp add: SignedInteger_def is_run_def)
next
  case (Cons c ds)
  then show ?thesis
    by (auto simp add: SignedInteger_def parse_digits_none is_run_def sign_not_digit)
qed

lemma StringToBigInt_none:
  "StringToBigInt str = None \<longleftrightarrow> trim str \<noteq> [] \<and> \<not> is_integer_literal (trim str)"
proof (cases "trim str")
  case Nil
  then show ?thesis by (simp add: StringToBigInt_def)
next
  case (Cons c0 r)
  note outer = Cons
  show ?thesis
  proof (cases r)
    case Nil
    with outer show ?thesis
      by (simp add: StringToBigInt_def NonDecimalIntegerLiteral_def SignedInteger_none
          is_integer_literal_def)
  next
    case (Cons c1 ds)
    show ?thesis
    proof (cases "c0 = CHR ''0'' \<and> (c1 = CHR ''x'' \<or> c1 = CHR ''X'' \<or> c1 = CHR ''o'' \<or> c1 = CHR ''O''
                    \<or> c1 = CHR ''b'' \<or> c1 = CHR ''B'')")
      case True
      then have "\<not> is_digit c1" by (intro letter_not_digit) simp
      with True outer Cons show ?thesis
        by (auto simp add: StringToBigInt_def NonDecimalIntegerLiteral_def
            is_integer_literal_def parse_digits_none is_run_def)
    next
      case False
      with outer Cons show ?thesis
        by (auto simp add: StringToBigInt_def NonDecimalIntegerLiteral_def
            SignedInteger_none is_integer_literal_def)
    qed
  qed
qed

text \<open>
  C8 (as amended). \<open>parseSnowflakeId\<close> and \<open>getSnowflakeTimestamp\<close> throw the syntax
  error of the BigInt conversion exactly for the strings that, once white space is
  trimmed at both ends, are not empty and are not an integer literal (decimal digits
  with an optional sign, or a 0x, 0o or 0b literal). An empty or all-blank string is
  decoded as the identifier 0, whose timestamp is the epoch (as a double).
\<close>

theorem malformed_id_throws:
  "(parseSnowflakeId str e = Inl SyntaxError
      \<longleftrightarrow> trim str \<noteq> [] \<and> \<not> is_integer_literal (trim str))
   \<and> (getSnowflakeTimestamp str e = Inl SyntaxError
      \<longleftrightarrow> trim str \<noteq> [] \<and> \<not> is_integer_literal (trim str))
   \<and> (trim str = [] \<longrightarrow>
        parseSnowflakeId str e =
          Inr \<lparr> timestamp = round_to_double (epoch_arg e), components.datacenterId = 0,
                components.workerId = 0, components.sequence = 0,
                date = Date_new (round_to_double (epoch_arg e)) \<rparr>
        \<and> getSnowflakeTimestamp str e = Inr (round_to_double (epoch_arg e)))"
proof -
  have 1: "parseSnowflakeId str e = Inl SyntaxError \<longleftrightarrow> StringToBigInt str = None"
    by (simp add: parseSnowflakeId_def BigInt_def Let_def split: option.splits)
  have 2: "getSnowflakeTimestamp str e = Inl SyntaxError \<longleftrightarrow> StringToBigInt str = None"
    by (simp add: getSnowflakeTimestamp_def BigInt_def split: option.splits)
  have 3: "parseSnowflakeId str e =
          Inr \<lparr> timestamp = round_to_double (epoch_arg e), components.datacenterId = 0,
                components.workerId = 0, components.sequence = 0,
                date = Date_new (round_to_double (epoch_arg e)) \<rparr>
        \<and> getSnowflakeTimestamp str e = Inr (round_to_double (epoch_arg e))" if "trim str = []"
    using that
    by (simp add: parseSnowflakeId_def getSnowflakeTimestamp_def BigInt_def StringToBigInt_def
        Let_def Number_of_BigInt_def round_to_double_exact)
  from 1 2 3 show ?thesis unfolding StringToBigInt_none by blast
qed

lemmas eval_literal = trim_def is_StrWhiteSpaceChar_def is_integer_literal_def is_run_def
  is_digit_def is_hex_digit_def is_octal_digit_def is_binary_digit_def

theorem malformed_id_throws_witness:
  "parseSnowflakeId ''abc'' None = Inl SyntaxError
   \<and> getSnowflakeTimestamp ''abc'' None = Inl SyntaxError
   \<and> parseSnowflakeId ''12a'' (Some 0) = Inl SyntaxError
   \<and> getSnowflakeTimestamp ''1.5'' (Some 0) = Inl SyntaxError
   \<and> trim ''abc'' \<noteq> [] \<and> \<not> is_integer_literal (trim ''abc'')"
  using malformed_id_throws [of "''abc''" None] malformed_id_throws [of "''12a''" "Some 0"]
    malformed_id_throws [of "''1.5''" "Some 0"]
  by (simp add: eval_literal)

text \<open>
  C8 as stated fails: the empty string, and a string of blanks, are not numeric, and both
  decode without an error to the components of identifier 0.
\<close>

theorem malformed_id_counterexample:
  "parseSnowflakeId [] None =
     Inr \<lparr> timestamp = 1577836800000, components.datacenterId = 0, components.workerId = 0,
           components.sequence = 0, date = Some 1577836800000 \<rparr>
   \<and> getSnowflakeTimestamp [] None = Inr 1577836800000
   \<and> parseSnowflakeId ''  '' None =
     Inr \<lparr> timestamp = 1577836800000, components.datacenterId = 0, components.workerId = 0,
           components.sequence = 0, date = Some 1577836800000 \<rparr>"
  by (simp add: eval_parse)

section \<open>Merging configuration sources\<close>

lemma storage_defines_ids:
  "loadConfigFromStorage (Some items) ''datacenterId'' \<noteq> None
   \<and> loadConfigFromStorage (Some items) ''workerId'' \<noteq> None"
  by (simp add: loadConfigFromStorage_def Let_def)

lemma storage_hides_browser:
  "spread (generateBrowserConfig d w) (loadConfigFromStorage (Some items)) =
     loadConfigFromStorage (Some items)"
proof (rule ext)
  fix name
  show "spread (generateBrowserConfig d w) (loadConfigFromStorage (Some items)) name =
          loadConfigFromStorage (Some items) name"
    using storage_defines_ids[of items]
    by (cases "loadConfigFromStorage (Some items) name")
       (auto simp add: spread_def generateBrowserConfig_def map_add_def)
qed

lemma fingerprint_unused:
  "createSnowflakeFromStorage (Some items) d w overrides =
   createSnowflakeFromStorage (Some items) d' w' overrides"
  by (simp add: createSnowflakeFromStorage_def Let_def storage_hides_browser)

text \<open>
  What the merge of \<open>createSnowflakeFromStorage\<close> does for one field: the first source,
  from overrides to storage to fingerprint, that has the property decides, and a
  property that holds \<open>undefined\<close> decides for the default.
\<close>

lemma merged_field:
  "destructure (spread (spread browserConfig storageConfig) overrides) name dflt =
     (case overrides name of
        Some p \<Rightarrow> (case p of Value v \<Rightarrow> v | Undefined \<Rightarrow> dflt)
      | None \<Rightarrow>
          (case storageConfig name of
             Some p \<Rightarrow> (case p of Value v \<Rightarrow> v | Undefined \<Rightarrow> dflt)
           | None \<Rightarrow>
               (case browserConfig name of
                  Some p \<Rightarrow> (case p of Value v \<Rightarrow> v | Undefined \<Rightarrow> dflt)
                | None \<Rightarrow> dflt)))"
  by (simp add: destructure_def spread_def map_add_def split: option.splits property.splits)

text \<open>
  C9. The property: a field that neither the overrides nor the storage supply takes
  the fingerprint value, not the library default. Evaluated on the code with a
  \<open>localStorage\<close> that exists and holds no identifiers, no overrides and the fingerprint
  values 7 and 9: the generator gets the library defaults 0 and 0. Without any
  \<open>localStorage\<close> the same call gets 7 and 9.
\<close>

theorem storage_without_ids_drops_fingerprint:
  "createSnowflakeFromStorage (Some Map.empty) 7 9 Map.empty =
     Inr \<lparr> epoch = Num 1577836800000, datacenterId = Num 0, workerId = Num 0,
           lastTimestamp = - 1, sequence = 0 \<rparr>
   \<and> createSnowflakeFromStorage None 7 9 Map.empty =
     Inr \<lparr> epoch = Num 1577836800000, datacenterId = Num 7, workerId = Num 9,
           lastTimestamp = - 1, sequence = 0 \<rparr>"
  by (simp add: createSnowflakeFromStorage_def loadConfigFromStorage_def
      generateBrowserConfig_def parseLocalStorageInt_def spread_def Let_def
      createSnowflake_cases destructure_def DEFAULT_EPOCH_def Number_less_def
      EPOCH_KEY_def DATACENTER_ID_KEY_def WORKER_ID_KEY_def)

end
